theory Spec2Isabelle
  imports Main "HOL-Library.Word"
begin

unbundle bit_operations_syntax

section \<open>Platform: bytes, strings and the Node.js Buffer operations the code calls\<close>

text \<open>
  A byte is an 8-bit word. A JavaScript string is a sequence of UTF-16 code units.
  JavaScript numbers are modelled as \<open>int\<close> (fractional values, NaN and the
  infinities are outside the model).
\<close>

type_synonym byte = "8 word"
type_synonym jsstring = "16 word list"

text \<open>An ASCII/Latin-1 literal as a JavaScript string.\<close>

definition js :: "string \<Rightarrow> jsstring" where
  "js s = map (\<lambda>c. of_nat (of_char c)) s"

text \<open>
  \<^verbatim>\<open>Buffer.from(value, 'utf8')\<close>: the UTF-8 encoding of a string. A surrogate pair is
  one 4-byte sequence; a lone surrogate is encoded as U+FFFD (EF BF BD).
\<close>

fun utf8 :: "jsstring \<Rightarrow> byte list" where
  "utf8 [] = []"
| "utf8 (c # cs) =
     (if unat c < 0x80 then of_nat (unat c) # utf8 cs
      else if unat c < 0x800 then
        of_nat (0xC0 + unat c div 64) # of_nat (0x80 + unat c mod 64) # utf8 cs
      else if 0xD800 \<le> unat c \<and> unat c < 0xDC00 then
        (case cs of
           [] \<Rightarrow> [0xEF, 0xBF, 0xBD]
         | d # ds \<Rightarrow>
             if 0xDC00 \<le> unat d \<and> unat d < 0xE000 then
               of_nat (0xF0 + (0x10000 + (unat c - 0xD800) * 0x400 + (unat d - 0xDC00)) div 262144)
               # of_nat (0x80 + (0x10000 + (unat c - 0xD800) * 0x400 + (unat d - 0xDC00)) div 4096 mod 64)
               # of_nat (0x80 + (0x10000 + (unat c - 0xD800) * 0x400 + (unat d - 0xDC00)) div 64 mod 64)
               # of_nat (0x80 + (0x10000 + (unat c - 0xD800) * 0x400 + (unat d - 0xDC00)) mod 64)
               # utf8 ds
             else 0xEF # 0xBF # 0xBD # utf8 cs)
      else if 0xDC00 \<le> unat c \<and> unat c < 0xE000 then 0xEF # 0xBF # 0xBD # utf8 cs
      else of_nat (0xE0 + unat c div 4096) # of_nat (0x80 + unat c div 64 mod 64)
           # of_nat (0x80 + unat c mod 64) # utf8 cs)"

text \<open>The errors Node.js raises from the Buffer write methods (both are RangeErrors).\<close>

datatype error = ERR_OUT_OF_RANGE | ERR_BUFFER_OUT_OF_BOUNDS

text \<open>
  \<^verbatim>\<open>boundsError(offset, length)\<close> of Node.js, for an integral offset outside the buffer:
  the write methods pass the buffer's length less the width of the field.
\<close>

definition boundsError :: "int \<Rightarrow> error" where
  "boundsError len = (if len < 0 then ERR_BUFFER_OUT_OF_BOUNDS else ERR_OUT_OF_RANGE)"

text \<open>
  \<^verbatim>\<open>buf.writeUInt8(value, offset)\<close>: the value is checked against 0..255 first, then the
  offset against the buffer; only then is the byte stored.
\<close>

definition buf_writeUInt8 :: "byte list \<Rightarrow> int \<Rightarrow> nat \<Rightarrow> error + byte list" where
  "buf_writeUInt8 buf v offset =
     (if v > 0xFF \<or> v < 0 then Inl ERR_OUT_OF_RANGE
      else if \<not> offset < length buf then Inl (boundsError (int (length buf) - 1))
      else Inr (buf[offset := word_of_int v]))"

text \<open>\<^verbatim>\<open>buf.writeInt8(value, offset)\<close>: range -128..127, stored in two's complement.\<close>

definition buf_writeInt8 :: "byte list \<Rightarrow> int \<Rightarrow> nat \<Rightarrow> error + byte list" where
  "buf_writeInt8 buf v offset =
     (if v > 0x7F \<or> v < - 0x80 then Inl ERR_OUT_OF_RANGE
      else if \<not> offset < length buf then Inl (boundsError (int (length buf) - 1))
      else Inr (buf[offset := word_of_int v]))"

text \<open>
  \<^verbatim>\<open>buf.writeInt32LE(value, offset)\<close>: range -2^31..2^31-1, the first and the last of the
  four offsets must lie in the buffer; the four bytes are stored lowest first.
\<close>

definition buf_writeInt32LE :: "byte list \<Rightarrow> int \<Rightarrow> nat \<Rightarrow> error + byte list" where
  "buf_writeInt32LE buf v offset =
     (if v > 0x7FFFFFFF \<or> v < - 0x80000000 then Inl ERR_OUT_OF_RANGE
      else if \<not> offset < length buf \<or> \<not> offset + 3 < length buf then
        Inl (boundsError (int (length buf) - 4))
      else Inr (buf[offset := word_of_int v,
                    offset + 1 := word_of_int (v div 0x100),
                    offset + 2 := word_of_int (v div 0x10000),
                    offset + 3 := word_of_int (v div 0x1000000)]))"

text \<open>
  \<^verbatim>\<open>source.copy(target, targetStart, sourceStart, sourceEnd)\<close>: copies the bytes
  \<open>sourceStart..<sourceEnd\<close> of the source into the target from \<open>targetStart\<close> on, as
  many as fit; the result is the target afterwards. The writer always passes 0 for
  \<open>sourceStart\<close> (Node.js throws for one beyond the source).
\<close>

definition buf_copy :: "byte list \<Rightarrow> byte list \<Rightarrow> nat \<Rightarrow> nat \<Rightarrow> nat \<Rightarrow> byte list" where
  "buf_copy source target targetStart sourceStart sourceEnd =
     (let src = take (min sourceEnd (length source) - sourceStart) (drop sourceStart source);
          n = min (length src) (length target - targetStart)
      in take targetStart target @ take n src @ drop (targetStart + n) target)"

section \<open>BinaryWriter\<close>

record BinaryWriter =
  buffer :: "byte list"
  position :: nat

text \<open>
  A write either returns the writer afterwards, or throws: the error, with the writer as
  the throw leaves it.
\<close>

type_synonym result = "(error \<times> BinaryWriter) + BinaryWriter"

text \<open>The constructor: \<^verbatim>\<open>Buffer.alloc(size)\<close> is zero-filled.\<close>

definition new_BinaryWriter :: "nat \<Rightarrow> BinaryWriter" where
  "new_BinaryWriter sz = \<lparr>buffer = replicate sz 0, position = 0\<rparr>"

definition ensureCapacity :: "nat \<Rightarrow> BinaryWriter \<Rightarrow> BinaryWriter" where
  "ensureCapacity additional w =
     (let required = position w + additional in
      if required > length (buffer w) then
        (let newSize = max required (length (buffer w) * 2);
             newBuffer = replicate newSize 0
         in w\<lparr>buffer := buf_copy (buffer w) newBuffer 0 0 (length (buffer w))\<rparr>)
      else w)"

definition writeByte :: "int \<Rightarrow> BinaryWriter \<Rightarrow> result" where
  "writeByte v w =
     (let w1 = ensureCapacity 1 w in
      case buf_writeUInt8 (buffer w1) v (position w1) of
        Inl e \<Rightarrow> Inl (e, w1)
      | Inr b \<Rightarrow> Inr (w1\<lparr>buffer := b, position := position w1 + 1\<rparr>))"

definition writeSignedByte :: "int \<Rightarrow> BinaryWriter \<Rightarrow> result" where
  "writeSignedByte v w =
     (let w1 = ensureCapacity 1 w in
      case buf_writeInt8 (buffer w1) v (position w1) of
        Inl e \<Rightarrow> Inl (e, w1)
      | Inr b \<Rightarrow> Inr (w1\<lparr>buffer := b, position := position w1 + 1\<rparr>))"

definition writeInt :: "int \<Rightarrow> BinaryWriter \<Rightarrow> result" where
  "writeInt v w =
     (let w1 = ensureCapacity 4 w in
      case buf_writeInt32LE (buffer w1) v (position w1) of
        Inl e \<Rightarrow> Inl (e, w1)
      | Inr b \<Rightarrow> Inr (w1\<lparr>buffer := b, position := position w1 + 4\<rparr>))"

definition writeBoolean :: "bool \<Rightarrow> BinaryWriter \<Rightarrow> result" where
  "writeBoolean v w = writeByte (if v then 1 else 0) w"

definition writeString :: "jsstring \<Rightarrow> BinaryWriter \<Rightarrow> result" where
  "writeString v w =
     (let bytes = utf8 v in
      case writeInt (int (length bytes)) w of
        Inl x \<Rightarrow> Inl x
      | Inr w1 \<Rightarrow>
          (let w2 = ensureCapacity (length bytes) w1 in
           Inr (w2\<lparr>buffer := buf_copy bytes (buffer w2) (position w2) 0 (length bytes),
                   position := position w2 + length bytes\<rparr>)))"

definition writeByteString :: "jsstring \<Rightarrow> BinaryWriter \<Rightarrow> result" where
  "writeByteString v w =
     (let bytes = utf8 v in
      case writeByte (int (length bytes)) w of
        Inl x \<Rightarrow> Inl x
      | Inr w1 \<Rightarrow>
          (let w2 = ensureCapacity (length bytes) w1 in
           Inr (w2\<lparr>buffer := buf_copy bytes (buffer w2) (position w2) 0 (length bytes),
                   position := position w2 + length bytes\<rparr>)))"

text \<open>
  The loop \<^verbatim>\<open>for (let i = from; i < to; i++) this.buffer[this.position + i] = 0\<close> of
  writeFixedString and skip. An index assignment outside a Buffer is ignored, as
  a list update outside the list is.
\<close>

function zero_loop :: "nat \<Rightarrow> nat \<Rightarrow> nat \<Rightarrow> byte list \<Rightarrow> byte list" where
  "zero_loop i to pos buf =
     (if i < to then zero_loop (Suc i) to pos (buf[pos + i := 0]) else buf)"
  by pat_completeness auto
termination
  by (relation "measure (\<lambda>(i, to, pos, buf). to - i)") auto

declare zero_loop.simps [simp del]

definition writeFixedString :: "jsstring \<Rightarrow> nat \<Rightarrow> BinaryWriter \<Rightarrow> result" where
  "writeFixedString v len w =
     (let bytes = utf8 v;
          written = min (length bytes) len;
          w1 = ensureCapacity len w;
          b1 = buf_copy bytes (buffer w1) (position w1) 0 written;
          b2 = zero_loop written len (position w1) b1
      in Inr (w1\<lparr>buffer := b2, position := position w1 + len\<rparr>))"

definition writeBytes :: "byte list \<Rightarrow> BinaryWriter \<Rightarrow> result" where
  "writeBytes bytes w =
     (let w1 = ensureCapacity (length bytes) w in
      Inr (w1\<lparr>buffer := buf_copy bytes (buffer w1) (position w1) 0 (length bytes),
              position := position w1 + length bytes\<rparr>))"

text \<open>Sequencing of two writes: the second runs unless the first threw.\<close>

definition andThen :: "result \<Rightarrow> (BinaryWriter \<Rightarrow> result) \<Rightarrow> result" where
  "andThen r f = (case r of Inl x \<Rightarrow> Inl x | Inr w \<Rightarrow> f w)"

definition writeColor :: "int \<Rightarrow> int \<Rightarrow> int \<Rightarrow> BinaryWriter \<Rightarrow> result" where
  "writeColor r g b w =
     andThen (andThen (andThen (writeByte r w) (writeByte g)) (writeByte b)) (writeByte 0)"

definition skip :: "nat \<Rightarrow> BinaryWriter \<Rightarrow> result" where
  "skip count w =
     (let w1 = ensureCapacity count w in
      Inr (w1\<lparr>buffer := zero_loop 0 count (position w1) (buffer w1),
              position := position w1 + count\<rparr>))"

definition getPosition :: "BinaryWriter \<Rightarrow> nat" where
  "getPosition w = position w"

text \<open>\<^verbatim>\<open>this.buffer.subarray(0, this.position)\<close>\<close>

definition toBuffer :: "BinaryWriter \<Rightarrow> byte list" where
  "toBuffer w = take (position w) (buffer w)"

section \<open>The document model\<close>

subsection \<open>Note\<close>

record Note =
  fret :: int
  string :: int
  velocity :: int
  ghost :: "bool option"
  accentuated :: "bool option"
  heavyAccentuated :: "bool option"
  palmMute :: "bool option"
  vibrato :: "bool option"
  harmonic :: "bool option"
  trill :: "bool option"
  slide :: "bool option"

subsection \<open>Beat\<close>

text \<open>
  The enum Duration is numeric: at run time a duration is a number, and the handlers
  pass on whatever number the caller sent (\<^verbatim>\<open>createBeat(beatData.duration || Duration.QUARTER)\<close>).
\<close>

type_synonym Duration = int

definition WHOLE :: Duration where "WHOLE = 1"
definition HALF :: Duration where "HALF = 2"
definition QUARTER :: Duration where "QUARTER = 4"
definition EIGHTH :: Duration where "EIGHTH = 8"
definition SIXTEENTH :: Duration where "SIXTEENTH = 16"
definition THIRTY_SECOND :: Duration where "THIRTY_SECOND = 32"

record Beat =
  "notes" :: "Note list"
  duration :: Duration
  dotted :: bool
  tuplet :: int
  rest :: bool
  "text" :: "jsstring option"

definition createBeat :: "Duration option \<Rightarrow> Beat" where
  "createBeat d =
     \<lparr>notes = [], duration = (case d of None \<Rightarrow> QUARTER | Some x \<Rightarrow> x),
      dotted = False, tuplet = 1, rest = False, text = None\<rparr>"

definition addNoteToBeat :: "Beat \<Rightarrow> Note \<Rightarrow> Beat" where
  "addNoteToBeat beat note = beat\<lparr>notes := notes beat @ [note], rest := False\<rparr>"

subsection \<open>Measure\<close>

record TimeSignature =
  numerator :: int
  denominator :: int

record KeySignature =
  "value" :: int
  minor :: bool

record Measure =
  beats :: "Beat list"
  timeSignature :: "TimeSignature option"
  keySignature :: "KeySignature option"
  tempo :: "int option"
  marker :: "jsstring option"
  repeatOpen :: "bool option"
  repeatClose :: "int option"

definition createMeasure :: Measure where
  "createMeasure =
     \<lparr>beats = [], timeSignature = None, keySignature = None, tempo = None,
      marker = None, repeatOpen = None, repeatClose = None\<rparr>"

definition addBeatToMeasure :: "Measure \<Rightarrow> Beat \<Rightarrow> Measure" where
  "addBeatToMeasure m beat = m\<lparr>beats := beats m @ [beat]\<rparr>"

definition setTimeSignature :: "Measure \<Rightarrow> int \<Rightarrow> int \<Rightarrow> Measure" where
  "setTimeSignature m n d =
     m\<lparr>timeSignature := Some \<lparr>numerator = n, denominator = d\<rparr>\<rparr>"

subsection \<open>Track\<close>

record MidiChannel =
  channel :: int
  effectChannel :: int
  instrument :: int

record Color =
  r :: int
  g :: int
  b :: int

record Tuning =
  strings :: "int list"

record Track =
  name :: jsstring
  measures :: "Measure list"
  tuning :: Tuning
  midiChannel :: MidiChannel
  color :: Color
  fretCount :: int
  offset :: int
  volume :: int
  balance :: int
  chorus :: int
  reverb :: int
  phaser :: int
  tremolo :: int

text \<open>
  \<^verbatim>\<open>Array.prototype.slice(start, end)\<close>: a negative index counts from the end of the
  array, and both indices are clamped to the array.
\<close>

definition slice :: "'a list \<Rightarrow> int \<Rightarrow> int \<Rightarrow> 'a list" where
  "slice xs start end =
     (let len = int (length xs);
          k = (if start < 0 then max (len + start) 0 else min start len);
          final = (if end < 0 then max (len + end) 0 else min end len)
      in take (nat (final - k)) (drop (nat k) xs))"

definition standardTuning :: "int list" where
  "standardTuning = [64, 59, 55, 50, 45, 40]"

text \<open>The parameter stringCount defaults to 6 when the caller leaves it out.\<close>

definition createTrack :: "jsstring \<Rightarrow> int option \<Rightarrow> Track" where
  "createTrack nm stringCount =
     \<lparr>name = nm,
      measures = [],
      tuning = \<lparr>strings = slice standardTuning 0 (case stringCount of None \<Rightarrow> 6 | Some n \<Rightarrow> n)\<rparr>,
      midiChannel = \<lparr>channel = 0, effectChannel = 1, instrument = 25\<rparr>,
      color = \<lparr>r = 255, g = 0, b = 0\<rparr>,
      fretCount = 24, offset = 0, volume = 13, balance = 0,
      chorus = 0, reverb = 0, phaser = 0, tremolo = 0\<rparr>"

definition addMeasureToTrack :: "Track \<Rightarrow> Measure \<Rightarrow> Track" where
  "addMeasureToTrack track m = track\<lparr>measures := measures track @ [m]\<rparr>"

definition setTuning :: "Track \<Rightarrow> int list \<Rightarrow> Track" where
  "setTuning track t = track\<lparr>tuning := \<lparr>strings = t\<rparr>\<rparr>"

subsection \<open>Song\<close>

record SongInfo =
  title :: jsstring
  subtitle :: "jsstring option"
  artist :: "jsstring option"
  album :: "jsstring option"
  author :: "jsstring option"
  copyright :: "jsstring option"
  writer :: "jsstring option"
  instructions :: "jsstring option"
  comments :: "jsstring list option"

record Song =
  info :: SongInfo
  tracks :: "Track list"
  tempo :: int
  key :: int
  measureCount :: int

text \<open>\<^verbatim>\<open>s || ''\<close> on an optional string: the string, or the empty string.\<close>

definition or_empty :: "jsstring option \<Rightarrow> jsstring" where
  "or_empty s = (case s of None \<Rightarrow> [] | Some x \<Rightarrow> x)"

definition createSong :: "jsstring \<Rightarrow> jsstring option \<Rightarrow> Song" where
  "createSong t a =
     \<lparr>info = \<lparr>title = t, subtitle = Some [], artist = Some (or_empty a), album = Some [],
              author = Some [], copyright = Some [], writer = Some [],
              instructions = Some [], comments = Some []\<rparr>,
      tracks = [], tempo = 120, key = 0, measureCount = 0\<rparr>"

definition addTrackToSong :: "Song \<Rightarrow> Track \<Rightarrow> Song" where
  "addTrackToSong song track =
     song\<lparr>tracks := tracks song @ [track],
          measureCount := max (measureCount song) (int (length (measures track)))\<rparr>"

definition setTempo :: "Song \<Rightarrow> int \<Rightarrow> Song" where
  "setTempo song t = song\<lparr>Song.tempo := t\<rparr>"

section \<open>GP6Writer\<close>

text \<open>A block of statements: each runs on the writer the one before left, unless it threw.\<close>

fun block :: "(BinaryWriter \<Rightarrow> result) list \<Rightarrow> BinaryWriter \<Rightarrow> result" where
  "block [] w = Inr w"
| "block (f # fs) w = andThen (f w) (block fs)"

text \<open>\<^verbatim>\<open>for (const x of xs) body(x)\<close>\<close>

definition forEach :: "'a list \<Rightarrow> ('a \<Rightarrow> BinaryWriter \<Rightarrow> result) \<Rightarrow> BinaryWriter \<Rightarrow> result" where
  "forEach xs body = block (map body xs)"

text \<open>
  The conditions of the writer's \<^verbatim>\<open>if (field)\<close> tests, by the field's type: an absent
  field (undefined) is falsy, and so are the number 0, the empty string and false.
\<close>

definition truthy_number :: "int option \<Rightarrow> bool" where
  "truthy_number x = (case x of None \<Rightarrow> False | Some n \<Rightarrow> n \<noteq> 0)"

definition truthy_string :: "jsstring option \<Rightarrow> bool" where
  "truthy_string x = (case x of None \<Rightarrow> False | Some s \<Rightarrow> s \<noteq> [])"

definition truthy_boolean :: "bool option \<Rightarrow> bool" where
  "truthy_boolean x = (case x of None \<Rightarrow> False | Some v \<Rightarrow> v)"

text \<open>The statement \<^verbatim>\<open>if (c) { flags |= bits; }\<close>: the flags afterwards.\<close>

definition or_if :: "bool \<Rightarrow> int \<Rightarrow> int \<Rightarrow> int" where
  "or_if c bits flags = (if c then flags OR bits else flags)"

definition writeHeader :: "BinaryWriter \<Rightarrow> result" where
  "writeHeader = block [writeFixedString (js ''FICHIER GUITAR PRO v6'') 31, writeInt 6]"

definition writeSongInfo :: "Song \<Rightarrow> BinaryWriter \<Rightarrow> result" where
  "writeSongInfo song =
     block [
       writeString (title (info song)),
       writeString (or_empty (subtitle (info song))),
       writeString (or_empty (artist (info song))),
       writeString (or_empty (album (info song))),
       writeString (or_empty (author (info song))),
       writeString (or_empty (copyright (info song))),
       writeString (or_empty (writer (info song))),
       writeString (or_empty (instructions (info song))),
       writeInt (int (length (case comments (info song) of None \<Rightarrow> [] | Some cs \<Rightarrow> cs))),
       forEach (case comments (info song) of None \<Rightarrow> [] | Some cs \<Rightarrow> cs) writeString]"

definition writeTrack :: "Track \<Rightarrow> BinaryWriter \<Rightarrow> result" where
  "writeTrack track =
     block [
       writeByte 0,
       writeString (name track),
       writeInt (int (length (strings (tuning track)))),
       forEach (strings (tuning track)) writeInt,
       writeInt (channel (midiChannel track)),
       writeInt (effectChannel (midiChannel track)),
       writeInt (instrument (midiChannel track)),
       writeInt (volume track),
       writeInt (balance track),
       writeInt (chorus track),
       writeInt (reverb track),
       writeInt (phaser track),
       writeInt (tremolo track),
       writeColor (r (color track)) (g (color track)) (b (color track)),
       writeInt (fretCount track),
       writeInt (offset track)]"

definition writeTracks :: "Song \<Rightarrow> BinaryWriter \<Rightarrow> result" where
  "writeTracks song =
     block [writeInt (int (length (tracks song))), forEach (tracks song) writeTrack]"

definition durationToValue :: "Duration \<Rightarrow> int" where
  "durationToValue d =
     (if d = WHOLE then 1
      else if d = HALF then 2
      else if d = QUARTER then 4
      else if d = EIGHTH then 8
      else if d = SIXTEENTH then 16
      else if d = THIRTY_SECOND then 32
      else 4)"

definition writeNote :: "Note \<Rightarrow> BinaryWriter \<Rightarrow> result" where
  "writeNote note =
     (let flags = 0;
          flags = or_if (truthy_boolean (ghost note)) 0x01 flags;
          flags = or_if (truthy_boolean (accentuated note)) 0x02 flags;
          flags = or_if (truthy_boolean (heavyAccentuated note)) 0x04 flags;
          flags = or_if (truthy_boolean (palmMute note)) 0x08 flags;
          flags = or_if (truthy_boolean (vibrato note)) 0x10 flags;
          flags = or_if (truthy_boolean (harmonic note)) 0x20 flags;
          flags = or_if (truthy_boolean (trill note)) 0x40 flags;
          flags = or_if (truthy_boolean (slide note)) 0x80 flags
      in block [
           writeByte flags,
           writeByte (string note),
           writeByte (fret note),
           writeByte (velocity note)])"

definition writeBeat :: "Beat \<Rightarrow> BinaryWriter \<Rightarrow> result" where
  "writeBeat beat =
     (let flags = 0;
          flags = or_if (dotted beat) 0x01 flags;
          flags = or_if (rest beat) 0x02 flags;
          flags = or_if (truthy_string (text beat)) 0x04 flags
      in block [
           writeByte flags,
           writeByte (durationToValue (duration beat)),
           writeInt (tuplet beat),
           (case text beat of
              None \<Rightarrow> Inr
            | Some s \<Rightarrow> if s \<noteq> [] then writeString s else Inr),
           writeInt (int (length (notes beat))),
           forEach (notes beat) writeNote])"

definition writeMeasure :: "Measure \<Rightarrow> BinaryWriter \<Rightarrow> result" where
  "writeMeasure m =
     (let flags = 0;
          flags = or_if (timeSignature m \<noteq> None) 0x01 flags;
          flags = or_if (keySignature m \<noteq> None) 0x02 flags;
          flags = or_if (truthy_string (marker m)) 0x04 flags;
          flags = or_if (truthy_boolean (repeatOpen m)) 0x08 flags;
          flags = or_if (truthy_number (repeatClose m)) 0x10 flags;
          flags = or_if (truthy_number (Measure.tempo m)) 0x20 flags
      in block [
           writeByte flags,
           (case timeSignature m of
              None \<Rightarrow> Inr
            | Some ts \<Rightarrow> block [writeByte (numerator ts), writeByte (denominator ts)]),
           (case keySignature m of
              None \<Rightarrow> Inr
            | Some ks \<Rightarrow> block [writeSignedByte (value ks), writeBoolean (minor ks)]),
           (case marker m of
              None \<Rightarrow> Inr
            | Some s \<Rightarrow> if s \<noteq> [] then writeString s else Inr),
           (case repeatClose m of
              None \<Rightarrow> Inr
            | Some n \<Rightarrow> if n \<noteq> 0 then writeByte n else Inr),
           (case Measure.tempo m of
              None \<Rightarrow> Inr
            | Some t \<Rightarrow> if t \<noteq> 0 then writeInt t else Inr),
           writeInt (int (length (beats m))),
           forEach (beats m) writeBeat])"

text \<open>
  The loop of writeTrackMeasures, from index \<open>i\<close> on. \<^verbatim>\<open>track.measures[i]\<close> is undefined
  past the end of the array, and then the literal \<^verbatim>\<open>{ beats: [] }\<close> is written.
\<close>

function writeTrackMeasures_from :: "nat \<Rightarrow> Track \<Rightarrow> int \<Rightarrow> BinaryWriter \<Rightarrow> result" where
  "writeTrackMeasures_from i track count w =
     (if int i < count then
        (case writeMeasure
                (if i < length (measures track) then measures track ! i
                 else \<lparr>beats = [], timeSignature = None, keySignature = None, tempo = None,
                       marker = None, repeatOpen = None, repeatClose = None\<rparr>) w of
           Inl x \<Rightarrow> Inl x
         | Inr w' \<Rightarrow> writeTrackMeasures_from (Suc i) track count w')
      else Inr w)"
  by pat_completeness auto
termination
  by (relation "measure (\<lambda>(i, track, count, w). nat (count - int i))") auto

declare writeTrackMeasures_from.simps [simp del]

definition writeTrackMeasures :: "Track \<Rightarrow> int \<Rightarrow> BinaryWriter \<Rightarrow> result" where
  "writeTrackMeasures track count = writeTrackMeasures_from 0 track count"

definition writeMeasures :: "Song \<Rightarrow> BinaryWriter \<Rightarrow> result" where
  "writeMeasures song =
     block [
       writeInt (measureCount song),
       forEach (tracks song) (\<lambda>track. writeTrackMeasures track (measureCount song))]"

text \<open>
  \<^verbatim>\<open>write(song)\<close>, on the writer the constructor made (\<^verbatim>\<open>new BinaryWriter()\<close>, one MiB):
  the written bytes, or the throw.
\<close>

definition write_song :: "Song \<Rightarrow> (error \<times> BinaryWriter) + byte list" where
  "write_song song =
     (case block [writeHeader, writeSongInfo song, writeTracks song, writeMeasures song]
             (new_BinaryWriter (1024 * 1024)) of
        Inl x \<Rightarrow> Inl x
      | Inr w \<Rightarrow> Inr (toBuffer w))"

section \<open>What the claims are stated with\<close>

subsection \<open>The written range of a writer\<close>

text \<open>
  The invariant of a BinaryWriter: the cursor lies inside the buffer. The constructor
  establishes it and every write keeps it.
\<close>

definition wf :: "BinaryWriter \<Rightarrow> bool" where
  "wf w \<longleftrightarrow> position w \<le> length (buffer w)"

text \<open>What a caller gets out of a write: the written bytes, or nothing when it threw.\<close>

definition written :: "result \<Rightarrow> byte list option" where
  "written res = (case res of Inl x \<Rightarrow> None | Inr w \<Rightarrow> Some (toBuffer w))"

text \<open>
  \<open>outcome f bytes\<close>: from every writer that satisfies the invariant, the write \<open>f\<close>
  appends exactly \<open>bytes\<close> to the written range when \<open>bytes\<close> is \<open>Some\<close>, and throws
  when it is \<open>None\<close>.
\<close>

definition outcome :: "(BinaryWriter \<Rightarrow> result) \<Rightarrow> byte list option \<Rightarrow> bool" where
  "outcome f bytes \<longleftrightarrow>
     (\<forall>w. wf w \<longrightarrow>
        (case bytes of
           Some bs \<Rightarrow> (\<exists>w'. f w = Inr w' \<and> wf w' \<and> toBuffer w' = toBuffer w @ bs)
         | None \<Rightarrow> (\<exists>x. f w = Inl x)))"

subsection \<open>The binary layout as the specification words it\<close>

text \<open>
  Fields of fixed width. A value that cannot be represented within the width of its
  field has no encoding (\<open>None\<close>).
\<close>

definition u8 :: "int \<Rightarrow> byte list option" where
  "u8 v = (if 0 \<le> v \<and> v \<le> 255 then Some [word_of_int v] else None)"

definition i8 :: "int \<Rightarrow> byte list option" where
  "i8 v = (if - 128 \<le> v \<and> v \<le> 127 then Some [word_of_int v] else None)"

text \<open>Four bytes, little-endian, two's complement.\<close>

definition le32 :: "int \<Rightarrow> byte list" where
  "le32 v = map (\<lambda>k. word_of_int (v div 256 ^ k)) [0, 1, 2, 3]"

definition i32 :: "int \<Rightarrow> byte list option" where
  "i32 v = (if - 2147483648 \<le> v \<and> v \<le> 2147483647 then Some (le32 v) else None)"

text \<open>One field after another: the concatenation, when every field has an encoding.\<close>

definition cat2 :: "byte list option \<Rightarrow> byte list option \<Rightarrow> byte list option" where
  "cat2 x y =
     (case x of None \<Rightarrow> None
      | Some xs \<Rightarrow> (case y of None \<Rightarrow> None | Some ys \<Rightarrow> Some (xs @ ys)))"

definition cat :: "byte list option list \<Rightarrow> byte list option" where
  "cat parts = foldr cat2 parts (Some [])"

text \<open>A length-prefixed string: the 4-byte length of the UTF-8 encoding, then its bytes.\<close>

definition lp_string :: "jsstring \<Rightarrow> byte list option" where
  "lp_string s = cat [i32 (int (length (utf8 s))), Some (utf8 s)]"

text \<open>One bit of a flags byte.\<close>

definition flag :: "bool \<Rightarrow> byte \<Rightarrow> byte" where
  "flag c bits = (if c then bits else 0)"

text \<open>Note record: flags byte, string index, fret, velocity.\<close>

definition spec_note_flags :: "Note \<Rightarrow> byte" where
  "spec_note_flags n =
     flag (truthy_boolean (ghost n)) 0x01 OR flag (truthy_boolean (accentuated n)) 0x02 OR
     flag (truthy_boolean (heavyAccentuated n)) 0x04 OR flag (truthy_boolean (palmMute n)) 0x08 OR
     flag (truthy_boolean (vibrato n)) 0x10 OR flag (truthy_boolean (harmonic n)) 0x20 OR
     flag (truthy_boolean (trill n)) 0x40 OR flag (truthy_boolean (slide n)) 0x80"

definition spec_note_record :: "Note \<Rightarrow> byte list option" where
  "spec_note_record n = cat [Some [spec_note_flags n], u8 (string n), u8 (fret n), u8 (velocity n)]"

text \<open>
  Beat record: flags byte (0x01 dotted, 0x02 rest, 0x04 text), duration byte, 4-byte
  tuplet, the text when its bit is set, 4-byte note count, the note records. The text
  counts as present when it is a non-empty string.
\<close>

definition spec_beat_flags :: "Beat \<Rightarrow> byte" where
  "spec_beat_flags bt =
     flag (dotted bt) 0x01 OR flag (rest bt) 0x02 OR flag (truthy_string (text bt)) 0x04"

definition spec_beat_record :: "Beat \<Rightarrow> byte list option" where
  "spec_beat_record bt =
     cat [Some [spec_beat_flags bt],
          u8 (durationToValue (duration bt)),
          i32 (tuplet bt),
          (if truthy_string (text bt) then lp_string (the (text bt)) else Some []),
          i32 (int (length (notes bt))),
          cat (map spec_note_record (notes bt))]"

text \<open>
  Measure record: flags byte, then the payloads of the fields whose bit is set, in the
  order time signature, key signature, marker, repeat-close count, tempo; then the
  4-byte beat count and the beat records. The repeat-open bit has no payload. A marker
  counts as present when it is a non-empty string, a repeat-close count and a tempo
  when they are a number other than 0, repeat-open when it is true.
\<close>

definition spec_measure_flags :: "Measure \<Rightarrow> byte" where
  "spec_measure_flags m =
     flag (timeSignature m \<noteq> None) 0x01 OR flag (keySignature m \<noteq> None) 0x02 OR
     flag (truthy_string (marker m)) 0x04 OR flag (truthy_boolean (repeatOpen m)) 0x08 OR
     flag (truthy_number (repeatClose m)) 0x10 OR flag (truthy_number (Measure.tempo m)) 0x20"

definition spec_measure_record :: "Measure \<Rightarrow> byte list option" where
  "spec_measure_record m =
     cat [Some [spec_measure_flags m],
          (case timeSignature m of
             None \<Rightarrow> Some []
           | Some ts \<Rightarrow> cat [u8 (numerator ts), u8 (denominator ts)]),
          (case keySignature m of
             None \<Rightarrow> Some []
           | Some ks \<Rightarrow> cat [i8 (value ks), Some [if minor ks then 1 else 0]]),
          (if truthy_string (marker m) then lp_string (the (marker m)) else Some []),
          (if truthy_number (repeatClose m) then u8 (the (repeatClose m)) else Some []),
          (if truthy_number (Measure.tempo m) then i32 (the (Measure.tempo m)) else Some []),
          i32 (int (length (beats m))),
          cat (map spec_beat_record (beats m))]"

text \<open>
  Track padding: the measures a track contributes to a measure table of \<open>count\<close>
  records per track: its own, in order, then empty measures up to \<open>count\<close>.
\<close>

definition spec_padded_measures :: "Track \<Rightarrow> int \<Rightarrow> Measure list" where
  "spec_padded_measures track count =
     take (nat count) (measures track) @
     replicate (nat count - length (measures track)) createMeasure"

text \<open>Measure table: the 4-byte global measure count, then track by track the records.\<close>

definition spec_measure_table :: "Song \<Rightarrow> byte list option" where
  "spec_measure_table song =
     cat [i32 (measureCount song),
          cat (map (\<lambda>track. cat (map spec_measure_record (spec_padded_measures track (measureCount song))))
                 (tracks song))]"

text \<open>
  The file: the header (the identifier zero-padded to 31 bytes, the 4-byte version 6),
  the song's metadata (eight length-prefixed strings, the 4-byte comment count, the
  comments), the track table (the 4-byte track count, the track records) and the
  measure table.
\<close>

definition spec_header :: "byte list option" where
  "spec_header =
     cat [Some (take 31 (utf8 (js ''FICHIER GUITAR PRO v6'')) @
                replicate (31 - length (utf8 (js ''FICHIER GUITAR PRO v6''))) 0),
          i32 6]"

definition spec_song_info :: "Song \<Rightarrow> byte list option" where
  "spec_song_info song =
     cat [lp_string (title (info song)),
          lp_string (or_empty (subtitle (info song))),
          lp_string (or_empty (artist (info song))),
          lp_string (or_empty (album (info song))),
          lp_string (or_empty (author (info song))),
          lp_string (or_empty (copyright (info song))),
          lp_string (or_empty (writer (info song))),
          lp_string (or_empty (instructions (info song))),
          i32 (int (length (case comments (info song) of None \<Rightarrow> [] | Some cs \<Rightarrow> cs))),
          cat (map lp_string (case comments (info song) of None \<Rightarrow> [] | Some cs \<Rightarrow> cs))]"

definition spec_track_record :: "Track \<Rightarrow> byte list option" where
  "spec_track_record track =
     cat [Some [0],
          lp_string (name track),
          i32 (int (length (strings (tuning track)))),
          cat (map i32 (strings (tuning track))),
          i32 (channel (midiChannel track)),
          i32 (effectChannel (midiChannel track)),
          i32 (instrument (midiChannel track)),
          i32 (volume track),
          i32 (balance track),
          i32 (chorus track),
          i32 (reverb track),
          i32 (phaser track),
          i32 (tremolo track),
          cat [u8 (r (color track)), u8 (g (color track)), u8 (b (color track)), Some [0]],
          i32 (fretCount track),
          i32 (offset track)]"

definition spec_track_table :: "Song \<Rightarrow> byte list option" where
  "spec_track_table song =
     cat [i32 (int (length (tracks song))), cat (map spec_track_record (tracks song))]"

definition spec_file :: "Song \<Rightarrow> byte list option" where
  "spec_file song =
     cat [spec_header, spec_song_info song, spec_track_table song, spec_measure_table song]"

subsection \<open>The songs the factory functions build\<close>

inductive reachable :: "Song \<Rightarrow> bool" where
  created: "reachable (createSong t a)"
| attached: "reachable song \<Longrightarrow> reachable (addTrackToSong song track)"
| tempo_set: "reachable song \<Longrightarrow> reachable (setTempo song t)"
| key_set: "reachable song \<Longrightarrow> reachable (song\<lparr>key := k\<rparr>)"

text \<open>The longest measure sequence among the tracks, 0 without tracks.\<close>

definition spec_max_measures :: "Track list \<Rightarrow> int" where
  "spec_max_measures ts = Max (insert 0 ((\<lambda>track. int (length (measures track))) ` set ts))"


section \<open>The BinaryWriter keeps what it wrote\<close>

lemma buf_copy_prefix:
  "targetStart + n \<le> length target \<Longrightarrow> n \<le> length source \<Longrightarrow>
   buf_copy source target targetStart 0 n =
     take targetStart target @ take n source @ drop (targetStart + n) target"
  by (auto simp add: buf_copy_def Let_def min_def)

lemma buf_copy_whole:
  "targetStart + length source \<le> length target \<Longrightarrow>
   buf_copy source target targetStart 0 (length source) =
     take targetStart target @ source @ drop (targetStart + length source) target"
  by (simp add: buf_copy_prefix)

lemma ensureCapacity_grow:
  "buffer (ensureCapacity n w) =
     (if position w + n > length (buffer w)
      then buffer w @ replicate (max (position w + n) (length (buffer w) * 2) - length (buffer w)) 0
      else buffer w)"
  by (simp add: ensureCapacity_def Let_def buf_copy_whole)

lemma ensureCapacity_length:
  "length (buffer (ensureCapacity n w)) =
     (if position w + n > length (buffer w)
      then max (position w + n) (length (buffer w) * 2) else length (buffer w))"
  by (simp add: ensureCapacity_grow)

lemma ensureCapacity_position [simp]: "position (ensureCapacity n w) = position w"
  by (simp add: ensureCapacity_def Let_def)

lemma ensureCapacity_fits: "position w + n \<le> length (buffer (ensureCapacity n w))"
  by (simp add: ensureCapacity_length)

lemma ensureCapacity_wf: "wf w \<Longrightarrow> wf (ensureCapacity n w)"
  using ensureCapacity_fits [of w n] by (simp add: wf_def)

lemma ensureCapacity_toBuffer: "wf w \<Longrightarrow> toBuffer (ensureCapacity n w) = toBuffer w"
  by (simp add: ensureCapacity_grow toBuffer_def wf_def)

lemma store_at_cursor:
  assumes "wf w" "position w + length bs \<le> length (buffer w)"
    and "bf = take (position w) (buffer w) @ bs @ drop (position w + length bs) (buffer w)"
    and "k = length bs"
  shows "wf (w\<lparr>buffer := bf, position := position w + k\<rparr>) \<and>
     toBuffer (w\<lparr>buffer := bf, position := position w + k\<rparr>) = toBuffer w @ bs"
  using assms by (simp_all add: wf_def toBuffer_def)

lemma commit:
  assumes "wf w" and "k = length bs"
    and "f w = Inr ((ensureCapacity k w)\<lparr>buffer := take (position w) (buffer (ensureCapacity k w)) @ bs
              @ drop (position w + k) (buffer (ensureCapacity k w)), position := position w + k\<rparr>)"
  shows "\<exists>w'. f w = Inr w' \<and> wf w' \<and> toBuffer w' = toBuffer w @ bs"
proof -
  have "wf (ensureCapacity k w)" using assms(1) by (rule ensureCapacity_wf)
  moreover have "position (ensureCapacity k w) + length bs \<le> length (buffer (ensureCapacity k w))"
    using ensureCapacity_fits [of w k] assms(2) by simp
  ultimately show ?thesis
    using store_at_cursor [of "ensureCapacity k w" bs _ k] assms
    by (simp add: ensureCapacity_toBuffer)
qed

lemma update4:
  "pos + 4 \<le> length buf \<Longrightarrow>
   buf[pos := a0, pos + 1 := a1, pos + 2 := a2, pos + 3 := a3] =
     take pos buf @ [a0, a1, a2, a3] @ drop (pos + 4) buf"
  by (auto simp add: list_eq_iff_nth_eq nth_append nth_list_update nth_Cons' min_def)

lemma update1:
  "pos < length buf \<Longrightarrow> buf[pos := a0] = take pos buf @ [a0] @ drop (pos + 1) buf"
  by (simp add: upd_conv_take_nth_drop)

lemma writeByte_ok:
  assumes "wf w" "0 \<le> v" "v \<le> 255"
  shows "\<exists>w'. writeByte v w = Inr w' \<and> wf w' \<and> toBuffer w' = toBuffer w @ [word_of_int v]"
proof (rule commit [OF assms(1), where k = 1])
  have fits: "position w < length (buffer (ensureCapacity 1 w))"
    using ensureCapacity_fits [of w 1] by simp
  show "writeByte v w = Inr ((ensureCapacity 1 w)\<lparr>buffer := take (position w) (buffer (ensureCapacity 1 w)) @ [word_of_int v]
              @ drop (position w + 1) (buffer (ensureCapacity 1 w)), position := position w + 1\<rparr>)"
    using assms fits update1 [OF fits, of "word_of_int v"]
    by (simp add: writeByte_def Let_def buf_writeUInt8_def)
qed simp

lemma writeByte_throws:
  "v < 0 \<or> 255 < v \<Longrightarrow> writeByte v w = Inl (ERR_OUT_OF_RANGE, ensureCapacity 1 w)"
  by (auto simp add: writeByte_def Let_def buf_writeUInt8_def)

lemma writeSignedByte_ok:
  assumes "wf w" "- 128 \<le> v" "v \<le> 127"
  shows "\<exists>w'. writeSignedByte v w = Inr w' \<and> wf w' \<and> toBuffer w' = toBuffer w @ [word_of_int v]"
proof (rule commit [OF assms(1), where k = 1])
  have fits: "position w < length (buffer (ensureCapacity 1 w))"
    using ensureCapacity_fits [of w 1] by simp
  show "writeSignedByte v w = Inr ((ensureCapacity 1 w)\<lparr>buffer := take (position w) (buffer (ensureCapacity 1 w)) @ [word_of_int v]
              @ drop (position w + 1) (buffer (ensureCapacity 1 w)), position := position w + 1\<rparr>)"
    using assms fits update1 [OF fits, of "word_of_int v"]
    by (simp add: writeSignedByte_def Let_def buf_writeInt8_def)
qed simp

lemma writeSignedByte_throws:
  "v < - 128 \<or> 127 < v \<Longrightarrow> writeSignedByte v w = Inl (ERR_OUT_OF_RANGE, ensureCapacity 1 w)"
  by (auto simp add: writeSignedByte_def Let_def buf_writeInt8_def)

lemma writeInt_ok:
  assumes "wf w" "- 2147483648 \<le> v" "v \<le> 2147483647"
  shows "\<exists>w'. writeInt v w = Inr w' \<and> wf w' \<and> toBuffer w' = toBuffer w @ le32 v"
proof (rule commit [OF assms(1), where k = 4])
  have fits: "position w + 4 \<le> length (buffer (ensureCapacity 4 w))"
    using ensureCapacity_fits [of w 4] by simp
  show "writeInt v w = Inr ((ensureCapacity 4 w)\<lparr>buffer := take (position w) (buffer (ensureCapacity 4 w)) @ le32 v
              @ drop (position w + 4) (buffer (ensureCapacity 4 w)), position := position w + 4\<rparr>)"
    using assms fits update4 [OF fits]
    by (simp add: writeInt_def Let_def buf_writeInt32LE_def le32_def)
qed (simp add: le32_def)

lemma writeInt_throws:
  "v < - 2147483648 \<or> 2147483647 < v \<Longrightarrow> writeInt v w = Inl (ERR_OUT_OF_RANGE, ensureCapacity 4 w)"
  by (auto simp add: writeInt_def Let_def buf_writeInt32LE_def)

lemma copy_at_cursor:
  assumes "wf w"
    and "f w = Inr ((ensureCapacity (length bs) w)\<lparr>buffer := buf_copy bs (buffer (ensureCapacity (length bs) w)) (position w) 0 (length bs), position := position w + length bs\<rparr>)"
  shows "\<exists>w'. f w = Inr w' \<and> wf w' \<and> toBuffer w' = toBuffer w @ bs"
  by (rule commit [OF assms(1) refl])
    (simp add: assms(2) buf_copy_whole [OF ensureCapacity_fits [of w "length bs"]])

lemma writeBytes_ok:
  assumes "wf w"
  shows "\<exists>w'. writeBytes bs w = Inr w' \<and> wf w' \<and> toBuffer w' = toBuffer w @ bs"
  by (rule copy_at_cursor [OF assms]) (simp add: writeBytes_def Let_def)

lemma writeString_ok:
  assumes "wf w" "int (length (utf8 s)) \<le> 2147483647"
  shows "\<exists>w'. writeString s w = Inr w' \<and> wf w' \<and>
     toBuffer w' = toBuffer w @ le32 (int (length (utf8 s))) @ utf8 s"
proof -
  obtain w1 where w1: "writeInt (int (length (utf8 s))) w = Inr w1" "wf w1"
    "toBuffer w1 = toBuffer w @ le32 (int (length (utf8 s)))"
    using writeInt_ok [OF assms(1), of "int (length (utf8 s))"] assms(2) by auto
  have "\<exists>w'. (\<lambda>u. writeString s w) w1 = Inr w' \<and> wf w' \<and> toBuffer w' = toBuffer w1 @ utf8 s"
    by (rule copy_at_cursor [OF w1(2)]) (simp add: writeString_def Let_def w1(1))
  then show ?thesis by (simp add: w1(3))
qed

lemma writeString_throws:
  "2147483647 < int (length (utf8 s)) \<Longrightarrow> \<exists>x. writeString s w = Inl x"
  using writeInt_throws [of "int (length (utf8 s))" w] by (simp add: writeString_def Let_def)

lemma writeByteString_ok:
  assumes "wf w" "length (utf8 s) \<le> 255"
  shows "\<exists>w'. writeByteString s w = Inr w' \<and> wf w' \<and>
     toBuffer w' = toBuffer w @ [of_nat (length (utf8 s))] @ utf8 s"
proof -
  obtain w1 where w1: "writeByte (int (length (utf8 s))) w = Inr w1" "wf w1"
    "toBuffer w1 = toBuffer w @ [word_of_int (int (length (utf8 s)))]"
    using writeByte_ok [OF assms(1), of "int (length (utf8 s))"] assms(2) by auto
  have "\<exists>w'. (\<lambda>u. writeByteString s w) w1 = Inr w' \<and> wf w' \<and> toBuffer w' = toBuffer w1 @ utf8 s"
    by (rule copy_at_cursor [OF w1(2)]) (simp add: writeByteString_def Let_def w1(1))
  then show ?thesis by (simp add: w1(3))
qed

lemma writeByteString_throws:
  "255 < length (utf8 s) \<Longrightarrow> writeByteString s w = Inl (ERR_OUT_OF_RANGE, ensureCapacity 1 w)"
  using writeByte_throws [of "int (length (utf8 s))" w] by (simp add: writeByteString_def Let_def)

lemma zero_loop_eq:
  "i \<le> to \<Longrightarrow> pos + to \<le> length buf \<Longrightarrow>
   zero_loop i to pos buf = take (pos + i) buf @ replicate (to - i) 0 @ drop (pos + to) buf"
proof (induction i to pos buf rule: zero_loop.induct)
  case (1 i to pos buf)
  show ?case
  proof (cases "i < to")
    case True
    have "zero_loop i to pos buf = zero_loop (Suc i) to pos (buf[pos + i := 0])"
      using True by (subst zero_loop.simps) simp
    also have "\<dots> = take (pos + Suc i) (buf[pos + i := 0]) @ replicate (to - Suc i) 0
         @ drop (pos + to) (buf[pos + i := 0])"
      using True 1 by simp
    also have "take (pos + Suc i) (buf[pos + i := 0]) = take (pos + i) buf @ [0]"
      using True 1(3) by (simp add: take_Suc_conv_app_nth)
    also have "drop (pos + to) (buf[pos + i := 0]) = drop (pos + to) buf"
      using True by simp
    also have "(take (pos + i) buf @ [0]) @ replicate (to - Suc i) 0 @ drop (pos + to) buf =
       take (pos + i) buf @ replicate (to - i) 0 @ drop (pos + to) buf"
      using True by (simp add: Suc_diff_Suc flip: replicate_Suc)
    finally show ?thesis .
  next
    case False
    with 1(2) have "i = to" by simp
    then show ?thesis by (subst zero_loop.simps) simp
  qed
qed

lemma writeFixedString_ok:
  assumes "wf w"
  shows "\<exists>w'. writeFixedString s n w = Inr w' \<and> wf w' \<and>
     toBuffer w' = toBuffer w @ take n (utf8 s) @ replicate (n - length (utf8 s)) 0"
proof -
  define buf where "buf = buffer (ensureCapacity n w)"
  define k where "k = min (length (utf8 s)) n"
  define b1 where "b1 = buf_copy (utf8 s) buf (position w) 0 k"
  have fits: "position w + n \<le> length buf"
    unfolding buf_def by (rule ensureCapacity_fits)
  have k: "k \<le> n" "k \<le> length (utf8 s)" "take k (utf8 s) = take n (utf8 s)"
    "n - k = n - length (utf8 s)"
    by (auto simp add: k_def min_def)
  have b1: "b1 = take (position w) buf @ take k (utf8 s) @ drop (position w + k) buf"
    unfolding b1_def using fits k by (intro buf_copy_prefix) auto
  have len: "length b1 = length buf"
    using fits k(1,2) by (simp add: b1)
  have "zero_loop k n (position w) b1 =
      take (position w + k) b1 @ replicate (n - k) 0 @ drop (position w + n) b1"
    using fits len k(1) by (intro zero_loop_eq) auto
  also have "take (position w + k) b1 = take (position w) buf @ take k (utf8 s)"
    using fits k(1,2) by (simp add: b1)
  also have "drop (position w + n) b1 = drop (position w + n) buf"
    using fits k(1,2) by (simp add: b1 add.commute)
  finally have "zero_loop k n (position w) b1 =
      take (position w) buf @ (take n (utf8 s) @ replicate (n - length (utf8 s)) 0)
        @ drop (position w + n) buf"
    by (simp add: k)
  then show ?thesis
    by (intro commit [OF assms])
      (simp_all add: writeFixedString_def Let_def buf_def k_def b1_def)
qed

lemma skip_ok:
  assumes "wf w"
  shows "\<exists>w'. skip n w = Inr w' \<and> wf w' \<and> toBuffer w' = toBuffer w @ replicate n 0"
proof -
  have "zero_loop 0 n (position w) (buffer (ensureCapacity n w)) =
     take (position w) (buffer (ensureCapacity n w)) @ replicate n 0
       @ drop (position w + n) (buffer (ensureCapacity n w))"
    using zero_loop_eq [of 0 n "position w" "buffer (ensureCapacity n w)"] ensureCapacity_fits [of w n]
    by simp
  then show ?thesis
    by (intro commit [OF assms]) (simp_all add: skip_def Let_def)
qed

section \<open>The writer refines the layout\<close>

subsection \<open>Primitive writes and sequencing\<close>

lemma outcomeI_Some:
  "(\<And>w. wf w \<Longrightarrow> \<exists>w'. f w = Inr w' \<and> wf w' \<and> toBuffer w' = toBuffer w @ bs) \<Longrightarrow>
   outcome f (Some bs)"
  by (simp add: outcome_def)

lemma outcomeI_None: "(\<And>w. wf w \<Longrightarrow> \<exists>x. f w = Inl x) \<Longrightarrow> outcome f None"
  by (simp add: outcome_def)

lemma outcome_SomeD:
  "outcome f (Some bs) \<Longrightarrow> wf w \<Longrightarrow> \<exists>w'. f w = Inr w' \<and> wf w' \<and> toBuffer w' = toBuffer w @ bs"
  by (simp add: outcome_def)

lemma outcome_NoneD: "outcome f None \<Longrightarrow> wf w \<Longrightarrow> \<exists>x. f w = Inl x"
  by (simp add: outcome_def)

lemma outcome_Inr: "outcome Inr (Some [])"
  by (simp add: outcome_def)

lemma outcome_writeByte: "outcome (writeByte v) (u8 v)"
proof (cases "0 \<le> v \<and> v \<le> 255")
  case True
  then show ?thesis by (auto simp add: u8_def intro!: outcomeI_Some writeByte_ok)
next
  case False
  then show ?thesis by (auto simp add: u8_def writeByte_throws intro!: outcomeI_None)
qed

lemma outcome_writeSignedByte: "outcome (writeSignedByte v) (i8 v)"
proof (cases "- 128 \<le> v \<and> v \<le> 127")
  case True
  then show ?thesis by (auto simp add: i8_def intro!: outcomeI_Some writeSignedByte_ok)
next
  case False
  then show ?thesis by (auto simp add: i8_def writeSignedByte_throws intro!: outcomeI_None)
qed

lemma outcome_writeInt: "outcome (writeInt v) (i32 v)"
proof (cases "- 2147483648 \<le> v \<and> v \<le> 2147483647")
  case True
  then show ?thesis by (auto simp add: i32_def intro!: outcomeI_Some writeInt_ok)
next
  case False
  then show ?thesis by (auto simp add: i32_def writeInt_throws intro!: outcomeI_None)
qed

lemma outcome_writeBoolean: "outcome (writeBoolean v) (Some [if v then 1 else 0])"
proof -
  have "outcome (writeByte (if v then 1 else 0)) (u8 (if v then 1 else 0))"
    by (rule outcome_writeByte)
  moreover have "writeBoolean v = writeByte (if v then 1 else 0)"
    by (rule ext) (simp add: writeBoolean_def)
  ultimately show ?thesis by (simp add: u8_def split: if_splits)
qed

lemma outcome_writeString: "outcome (writeString s) (lp_string s)"
proof (cases "int (length (utf8 s)) \<le> 2147483647")
  case True
  then show ?thesis
    by (auto simp add: lp_string_def cat_def cat2_def i32_def intro!: outcomeI_Some writeString_ok)
next
  case False
  then show ?thesis
    by (auto simp add: lp_string_def cat_def cat2_def i32_def intro!: outcomeI_None writeString_throws)
qed

lemma outcome_cat2:
  assumes "outcome f x" "outcome h y"
  shows "outcome (\<lambda>w. andThen (f w) h) (cat2 x y)"
proof (cases x)
  case None
  then show ?thesis
    using assms(1) by (auto simp add: outcome_def cat2_def andThen_def)
next
  case (Some xs)
  show ?thesis
  proof (cases y)
    case None
    show ?thesis
      unfolding Some None cat2_def
    proof (simp, rule outcomeI_None)
      fix w assume "wf w"
      then obtain w1 where "f w = Inr w1" "wf w1"
        using outcome_SomeD [OF assms(1) [unfolded Some]] by blast
      then show "\<exists>x. andThen (f w) h = Inl x"
        using outcome_NoneD [OF assms(2) [unfolded None], of w1] by (simp add: andThen_def)
    qed
  next
    case (Some ys)
    show ?thesis
      unfolding \<open>x = Some xs\<close> Some cat2_def
    proof (simp, rule outcomeI_Some)
      fix w assume "wf w"
      then obtain w1 where w1: "f w = Inr w1" "wf w1" "toBuffer w1 = toBuffer w @ xs"
        using outcome_SomeD [OF assms(1) [unfolded \<open>x = Some xs\<close>]] by blast
      then show "\<exists>w'. andThen (f w) h = Inr w' \<and> wf w' \<and> toBuffer w' = toBuffer w @ xs @ ys"
        using outcome_SomeD [OF assms(2) [unfolded Some], of w1] by (simp add: andThen_def)
    qed
  qed
qed

lemma block_Cons_fun: "block (f # fs) = (\<lambda>w. andThen (f w) (block fs))"
  by (rule ext) simp

lemma outcome_block: "list_all2 outcome fs xs \<Longrightarrow> outcome (block fs) (cat xs)"
proof (induction fs xs rule: list_all2_induct)
  case Nil
  have "block [] = Inr" by (rule ext) simp
  then show ?case by (simp add: cat_def outcome_Inr)
next
  case (Cons f fs x xs)
  then show ?case
    unfolding block_Cons_fun using outcome_cat2 [of f x "block fs" "cat xs"]
    by (simp add: cat_def)
qed

lemma outcome_forEach:
  "(\<And>x. x \<in> set xs \<Longrightarrow> outcome (body x) (enc x)) \<Longrightarrow>
   outcome (forEach xs body) (cat (map enc xs))"
  unfolding forEach_def
  by (rule outcome_block) (simp add: list_all2_conv_all_nth)

lemma outcome_writeColor:
  "outcome (writeColor cr cg cb) (cat [u8 cr, u8 cg, u8 cb, Some [0]])"
proof -
  have "writeColor cr cg cb = block [writeByte cr, writeByte cg, writeByte cb, writeByte 0]"
    by (rule ext) (simp add: writeColor_def andThen_def split: sum.splits)
  moreover have "outcome (writeByte 0) (Some [0])"
    using outcome_writeByte [of 0] by (simp add: u8_def)
  ultimately show ?thesis
    using outcome_block [of "[writeByte cr, writeByte cg, writeByte cb, writeByte 0]"
        "[u8 cr, u8 cg, u8 cb, Some [0]]"]
    by (simp add: outcome_writeByte)
qed

subsection \<open>The records\<close>

lemma or_if_byte:
  assumes "0 \<le> v" "v \<le> 255" "0 \<le> m" "m \<le> 255"
  shows "0 \<le> or_if c m v \<and> or_if c m v \<le> 255 \<and>
    (word_of_int (or_if c m v) :: byte) = word_of_int v OR flag c (word_of_int m)"
proof -
  have "v OR m < 2 ^ 8"
    using assms by (intro OR_upper) auto
  then show ?thesis
    using assms by (simp add: or_if_def flag_def of_int_or_eq)
qed

lemma outcome_flags:
  assumes "0 \<le> v \<and> v \<le> 255 \<and> (word_of_int v :: byte) = x"
  shows "outcome (writeByte v) (Some [x])"
  using outcome_writeByte [of v] assms by (simp add: u8_def)

lemma outcome_writeNote: "outcome (writeNote n) (spec_note_record n)"
proof -
  note step = or_if_byte [THEN conjunct1] or_if_byte [THEN conjunct2, THEN conjunct1]
    or_if_byte [THEN conjunct2, THEN conjunct2]
  show ?thesis
  unfolding writeNote_def spec_note_record_def Let_def
  apply (rule outcome_block)
  apply (simp add: outcome_writeByte)
  apply (rule outcome_flags)
  apply (simp add: step spec_note_flags_def or.assoc)
  done
qed

lemma outcome_writeBeat: "outcome (writeBeat bt) (spec_beat_record bt)"
proof -
  note step = or_if_byte [THEN conjunct1] or_if_byte [THEN conjunct2, THEN conjunct1]
    or_if_byte [THEN conjunct2, THEN conjunct2]
  have tx: "outcome (case text bt of None \<Rightarrow> Inr | Some s \<Rightarrow> if s \<noteq> [] then writeString s else Inr)
     (if truthy_string (text bt) then lp_string (the (text bt)) else Some [])"
    by (simp add: truthy_string_def outcome_Inr outcome_writeString split: option.splits)
  show ?thesis
  unfolding writeBeat_def spec_beat_record_def Let_def
  apply (rule outcome_block)
  apply (simp add: outcome_writeByte outcome_writeInt tx outcome_forEach outcome_writeNote)
  apply (rule outcome_flags)
  apply (simp add: step spec_beat_flags_def or.assoc)
  done
qed

lemma outcome_writeMeasure: "outcome (writeMeasure m) (spec_measure_record m)"
proof -
  note step = or_if_byte [THEN conjunct1] or_if_byte [THEN conjunct2, THEN conjunct1]
    or_if_byte [THEN conjunct2, THEN conjunct2]
  have ts: "outcome (case timeSignature m of None \<Rightarrow> Inr
        | Some ts \<Rightarrow> block [writeByte (numerator ts), writeByte (denominator ts)])
      (case timeSignature m of None \<Rightarrow> Some []
        | Some ts \<Rightarrow> cat [u8 (numerator ts), u8 (denominator ts)])"
    by (simp add: outcome_Inr outcome_block outcome_writeByte split: option.splits)
  have ks: "outcome (case keySignature m of None \<Rightarrow> Inr
        | Some ks \<Rightarrow> block [writeSignedByte (value ks), writeBoolean (minor ks)])
      (case keySignature m of None \<Rightarrow> Some []
        | Some ks \<Rightarrow> cat [i8 (value ks), Some [if minor ks then 1 else 0]])"
    by (simp add: outcome_Inr outcome_block outcome_writeSignedByte outcome_writeBoolean
        split: option.splits)
  have mk: "outcome (case marker m of None \<Rightarrow> Inr | Some s \<Rightarrow> if s \<noteq> [] then writeString s else Inr)
     (if truthy_string (marker m) then lp_string (the (marker m)) else Some [])"
    by (simp add: truthy_string_def outcome_Inr outcome_writeString split: option.splits)
  have rc: "outcome (case repeatClose m of None \<Rightarrow> Inr | Some n \<Rightarrow> if n \<noteq> 0 then writeByte n else Inr)
     (if truthy_number (repeatClose m) then u8 (the (repeatClose m)) else Some [])"
    by (simp add: truthy_number_def outcome_Inr outcome_writeByte split: option.splits)
  have tp: "outcome (case Measure.tempo m of None \<Rightarrow> Inr | Some t \<Rightarrow> if t \<noteq> 0 then writeInt t else Inr)
     (if truthy_number (Measure.tempo m) then i32 (the (Measure.tempo m)) else Some [])"
    by (simp add: truthy_number_def outcome_Inr outcome_writeInt split: option.splits)
  show ?thesis
  unfolding writeMeasure_def spec_measure_record_def Let_def
  apply (rule outcome_block)
  apply (simp add: outcome_writeInt ts ks mk rc tp outcome_forEach outcome_writeBeat)
  apply (rule outcome_flags)
  apply (simp add: step spec_measure_flags_def or.assoc)
  done
qed

subsection \<open>The measure table\<close>

lemma padded_measures_nth:
  "spec_padded_measures track count =
     map (\<lambda>j. if j < length (measures track) then measures track ! j else createMeasure)
       [0..<nat count]"
  by (auto simp add: spec_padded_measures_def list_eq_iff_nth_eq nth_append)

lemma cat_Cons: "cat (x # xs) = cat2 x (cat xs)"
  by (simp add: cat_def)

lemma outcome_writeTrackMeasures_from:
  "outcome (writeTrackMeasures_from i track count)
     (cat (map spec_measure_record
        (map (\<lambda>j. if j < length (measures track) then measures track ! j else createMeasure)
           [i..<nat count])))"
proof (induction "nat count - i" arbitrary: i)
  case 0
  then have "\<not> int i < count" by linarith
  then have f: "writeTrackMeasures_from i track count = Inr"
    by (intro ext) (simp add: writeTrackMeasures_from.simps)
  have e: "[i..<nat count] = []" using 0 by simp
  show ?case unfolding f e by (simp add: cat_def outcome_Inr)
next
  case (Suc k)
  then have lt: "int i < count" "i < nat count" by linarith+
  let ?m = "if i < length (measures track) then measures track ! i else createMeasure"
  have f: "writeTrackMeasures_from i track count =
      (\<lambda>w. andThen (writeMeasure ?m w) (writeTrackMeasures_from (Suc i) track count))"
    using lt(1)
    by (intro ext, subst writeTrackMeasures_from.simps) (simp add: andThen_def createMeasure_def)
  have e: "[i..<nat count] = i # [Suc i..<nat count]"
    using lt(2) by (rule upt_conv_Cons)
  have "outcome (writeTrackMeasures_from (Suc i) track count)
     (cat (map spec_measure_record
        (map (\<lambda>j. if j < length (measures track) then measures track ! j else createMeasure)
           [Suc i..<nat count])))"
    using Suc by (intro Suc.hyps(1)) linarith
  then show ?case
    unfolding f e using outcome_cat2 [OF outcome_writeMeasure [of ?m]] by (simp add: cat_Cons)
qed

lemma outcome_writeTrackMeasures:
  "outcome (writeTrackMeasures track count)
     (cat (map spec_measure_record (spec_padded_measures track count)))"
  unfolding writeTrackMeasures_def padded_measures_nth
  by (rule outcome_writeTrackMeasures_from)

lemma outcome_writeMeasures: "outcome (writeMeasures song) (spec_measure_table song)"
  unfolding writeMeasures_def spec_measure_table_def
  by (rule outcome_block) (simp add: outcome_writeInt outcome_forEach outcome_writeTrackMeasures)

subsection \<open>Fresh writers and plain strings\<close>

lemma wf_new: "wf (new_BinaryWriter n)"
  by (simp add: wf_def new_BinaryWriter_def)

lemma toBuffer_new: "toBuffer (new_BinaryWriter n) = []"
  by (simp add: toBuffer_def new_BinaryWriter_def)

lemma utf8_ascii: "\<forall>c \<in> set s. unat c < 0x80 \<Longrightarrow> utf8 s = map (\<lambda>c. of_nat (unat c)) s"
  by (induction s) auto

lemma length_toBuffer: "wf w \<Longrightarrow> length (toBuffer w) = position w"
  by (simp add: wf_def toBuffer_def)

lemma cat_map_u8:
  "\<forall>v \<in> set vs. 0 \<le> v \<and> v \<le> 255 \<Longrightarrow> cat (map u8 vs) = Some (map word_of_int vs)"
  by (induction vs) (simp_all add: cat_def cat2_def u8_def)

lemma written_outcome:
  "outcome f (Some bs) \<Longrightarrow> written (f (new_BinaryWriter n)) = Some bs"
  using outcome_SomeD [of f bs "new_BinaryWriter n"]
  by (auto simp add: written_def wf_new toBuffer_new)

lemma written_outcome_None:
  "outcome f None \<Longrightarrow> written (f (new_BinaryWriter n)) = None"
  using outcome_NoneD [of f "new_BinaryWriter n"]
  by (auto simp add: written_def wf_new)

subsection \<open>The longest track\<close>

lemma max_measures_Nil: "spec_max_measures [] = 0"
  by (simp add: spec_max_measures_def)

lemma max_measures_snoc:
  "spec_max_measures (ts @ [track]) = max (spec_max_measures ts) (int (length (measures track)))"
proof -
  let ?A = "insert 0 ((\<lambda>track. int (length (measures track))) ` set ts)"
  have "spec_max_measures (ts @ [track]) = Max (insert (int (length (measures track))) ?A)"
    by (simp add: spec_max_measures_def insert_commute)
  also have "\<dots> = max (int (length (measures track))) (Max ?A)"
    by (rule Max_insert) simp_all
  finally show ?thesis
    by (simp add: spec_max_measures_def max.commute)
qed

subsection \<open>Reading a record back\<close>

lemma durationToValue_u8: "u8 (durationToValue d) = Some [word_of_int (durationToValue d)]"
  by (simp add: durationToValue_def u8_def)

lemma cat2_Some_iff:
  "cat2 x y = Some zs \<longleftrightarrow> (\<exists>xs ys. x = Some xs \<and> y = Some ys \<and> zs = xs @ ys)"
  by (auto simp add: cat2_def split: option.splits)

lemma beat_record_prefix:
  assumes "spec_beat_record bt = Some bs"
  shows "\<exists>more. bs = spec_beat_flags bt # word_of_int (durationToValue (duration bt)) # more"
  using assms
  by (auto simp add: spec_beat_record_def cat_Cons cat2_Some_iff durationToValue_u8)

lemma measure_record_prefix:
  assumes "spec_measure_record m = Some bs"
  shows "\<exists>more. bs = spec_measure_flags m # more"
  using assms
  by (auto simp add: spec_measure_record_def cat_Cons cat2_Some_iff)

lemma outcome_InrD:
  assumes "outcome f x" "wf w" "f w = Inr w'"
  shows "\<exists>bs. x = Some bs \<and> wf w' \<and> toBuffer w' = toBuffer w @ bs"
proof (cases x)
  case None
  then show ?thesis using outcome_NoneD [of f w] assms by auto
next
  case (Some bs)
  then show ?thesis using outcome_SomeD [of f bs w] assms by auto
qed

subsection \<open>The bits of the flags bytes\<close>

lemma flag_bits:
  "bit (flag c 0x01) n \<longleftrightarrow> c \<and> n = 0"
  "bit (flag c 0x02) n \<longleftrightarrow> c \<and> n = 1"
  "bit (flag c 0x04) n \<longleftrightarrow> c \<and> n = 2"
  "bit (flag c 0x08) n \<longleftrightarrow> c \<and> n = 3"
  "bit (flag c 0x10) n \<longleftrightarrow> c \<and> n = 4"
  "bit (flag c 0x20) n \<longleftrightarrow> c \<and> n = 5"
  "bit (flag c 0x40) n \<longleftrightarrow> c \<and> n = 6"
  "bit (flag c 0x80) n \<longleftrightarrow> c \<and> n = 7"
proof -
  have p: "bit ((2::byte) ^ k) n \<longleftrightarrow> k < 8 \<and> n = k" for k
    by (auto simp add: bit_exp_iff possible_bit_word)
  show "bit (flag c 0x01) n \<longleftrightarrow> c \<and> n = 0" using p [of 0] by (simp add: flag_def)
  show "bit (flag c 0x02) n \<longleftrightarrow> c \<and> n = 1" using p [of 1] by (simp add: flag_def)
  show "bit (flag c 0x04) n \<longleftrightarrow> c \<and> n = 2" using p [of 2] by (simp add: flag_def)
  show "bit (flag c 0x08) n \<longleftrightarrow> c \<and> n = 3" using p [of 3] by (simp add: flag_def)
  show "bit (flag c 0x10) n \<longleftrightarrow> c \<and> n = 4" using p [of 4] by (simp add: flag_def)
  show "bit (flag c 0x20) n \<longleftrightarrow> c \<and> n = 5" using p [of 5] by (simp add: flag_def)
  show "bit (flag c 0x40) n \<longleftrightarrow> c \<and> n = 6" using p [of 6] by (simp add: flag_def)
  show "bit (flag c 0x80) n \<longleftrightarrow> c \<and> n = 7" using p [of 7] by (simp add: flag_def)
qed

lemma measure_flags_bit:
  "bit (spec_measure_flags m) n \<longleftrightarrow>
     (n = 0 \<and> timeSignature m \<noteq> None) \<or> (n = 1 \<and> keySignature m \<noteq> None) \<or>
     (n = 2 \<and> truthy_string (marker m)) \<or> (n = 3 \<and> truthy_boolean (repeatOpen m)) \<or>
     (n = 4 \<and> truthy_number (repeatClose m)) \<or> (n = 5 \<and> truthy_number (Measure.tempo m))"
  unfolding spec_measure_flags_def bit_or_iff flag_bits by auto

lemma beat_flags_bit:
  "bit (spec_beat_flags bt) n \<longleftrightarrow>
     (n = 0 \<and> dotted bt) \<or> (n = 1 \<and> rest bt) \<or> (n = 2 \<and> truthy_string (text bt))"
  unfolding spec_beat_flags_def bit_or_iff flag_bits by auto

lemma outcome_cases:
  assumes "outcome f x" "wf w"
  shows "case x of
           Some bs \<Rightarrow> (\<exists>w'. f w = Inr w' \<and> toBuffer w' = toBuffer w @ bs)
         | None \<Rightarrow> (\<exists>e. f w = Inl e)"
  using assms by (auto simp add: outcome_def split: option.splits)

lemma written_flags_measure:
  assumes "wf w" "writeMeasure m w = Inr w'"
  shows "toBuffer w' ! position w = spec_measure_flags m"
proof -
  obtain bs where bs: "spec_measure_record m = Some bs" "toBuffer w' = toBuffer w @ bs"
    using outcome_InrD [OF outcome_writeMeasure assms] by blast
  obtain more where "bs = spec_measure_flags m # more"
    using measure_record_prefix [OF bs(1)] by blast
  then show ?thesis
    using length_toBuffer [OF assms(1)] by (simp add: bs(2) nth_append)
qed

lemma written_flags_beat:
  assumes "wf w" "writeBeat bt w = Inr w'"
  shows "toBuffer w' ! position w = spec_beat_flags bt"
proof -
  obtain bs where bs: "spec_beat_record bt = Some bs" "toBuffer w' = toBuffer w @ bs"
    using outcome_InrD [OF outcome_writeBeat assms] by blast
  obtain more where "bs = spec_beat_flags bt # word_of_int (durationToValue (duration bt)) # more"
    using beat_record_prefix [OF bs(1)] by blast
  then show ?thesis
    using length_toBuffer [OF assms(1)] by (simp add: bs(2) nth_append)
qed

lemma cat_flags_tl: "map_option tl (cat (Some [x] # xs)) = cat xs"
  by (cases "cat xs") (simp_all add: cat_Cons cat2_def)

lemma length_padded_measures: "length (spec_padded_measures track count) = nat count"
  by (simp add: padded_measures_nth)

lemma measure_record_empty: "spec_measure_record createMeasure = Some [0, 0, 0, 0, 0]"
  by code_simp

subsection \<open>The whole file\<close>

lemma outcome_writeFixedString:
  "outcome (writeFixedString s n) (Some (take n (utf8 s) @ replicate (n - length (utf8 s)) 0))"
  by (rule outcomeI_Some) (rule writeFixedString_ok)

lemma outcome_writeHeader: "outcome writeHeader spec_header"
  unfolding writeHeader_def spec_header_def
  by (rule outcome_block) (simp add: outcome_writeFixedString outcome_writeInt)

lemma outcome_writeSongInfo: "outcome (writeSongInfo song) (spec_song_info song)"
  unfolding writeSongInfo_def spec_song_info_def
  by (rule outcome_block) (simp add: outcome_writeString outcome_writeInt outcome_forEach)

lemma outcome_writeTrack: "outcome (writeTrack track) (spec_track_record track)"
proof -
  have "outcome (writeByte 0) (Some [0])"
    using outcome_writeByte [of 0] by (simp add: u8_def)
  then show ?thesis
    unfolding writeTrack_def spec_track_record_def
    by (intro outcome_block)
      (simp add: outcome_writeString outcome_writeInt outcome_forEach outcome_writeColor)
qed

lemma outcome_writeTracks: "outcome (writeTracks song) (spec_track_table song)"
  unfolding writeTracks_def spec_track_table_def
  by (rule outcome_block) (simp add: outcome_writeInt outcome_forEach outcome_writeTrack)

lemma write_song_layout:
  "case spec_file song of
     Some bs \<Rightarrow> write_song song = Inr bs
   | None \<Rightarrow> (\<exists>e. write_song song = Inl e)"
proof -
  have "outcome (block [writeHeader, writeSongInfo song, writeTracks song, writeMeasures song])
     (spec_file song)"
    unfolding spec_file_def
    by (rule outcome_block)
      (simp add: outcome_writeHeader outcome_writeSongInfo outcome_writeTracks
        outcome_writeMeasures)
  from outcome_cases [OF this wf_new, of "1024 * 1024"] show ?thesis
    by (auto simp add: write_song_def toBuffer_new split: option.splits)
qed

section \<open>The claims\<close>

text \<open>
  C1. A string whose UTF-8 encoding is longer than 255 bytes makes writeByteString
  throw (the RangeError \<open>ERR_OUT_OF_RANGE\<close> that \<^verbatim>\<open>writeUInt8\<close> raises for the length):
  nothing is returned, the throw leaves the written range as it was, and the length is
  neither truncated nor wrapped. A string of at most 255 encoded bytes is written as
  one byte holding the byte length, followed by the UTF-8 bytes.
\<close>

theorem writeByteString_length_limit:
  assumes "wf w"
  shows "(255 < length (utf8 s) \<longrightarrow>
            writeByteString s w = Inl (ERR_OUT_OF_RANGE, ensureCapacity 1 w) \<and>
            toBuffer (ensureCapacity 1 w) = toBuffer w \<and>
            written (writeByteString s w) = None) \<and>
         (length (utf8 s) \<le> 255 \<longrightarrow>
            (\<exists>w'. writeByteString s w = Inr w' \<and> wf w' \<and>
               toBuffer w' = toBuffer w @ [of_nat (length (utf8 s))] @ utf8 s \<and>
               unat (of_nat (length (utf8 s)) :: byte) = length (utf8 s)))"
proof (intro conjI impI)
  assume big: "255 < length (utf8 s)"
  show "writeByteString s w = Inl (ERR_OUT_OF_RANGE, ensureCapacity 1 w)"
    using big by (rule writeByteString_throws)
  then show "written (writeByteString s w) = None"
    by (simp add: written_def)
  show "toBuffer (ensureCapacity 1 w) = toBuffer w"
    using assms by (rule ensureCapacity_toBuffer)
next
  assume small: "length (utf8 s) \<le> 255"
  then have "unat (of_nat (length (utf8 s)) :: byte) = length (utf8 s)"
    by (simp add: unat_of_nat)
  then show "\<exists>w'. writeByteString s w = Inr w' \<and> wf w' \<and>
               toBuffer w' = toBuffer w @ [of_nat (length (utf8 s))] @ utf8 s \<and>
               unat (of_nat (length (utf8 s)) :: byte) = length (utf8 s)"
    using writeByteString_ok [OF assms small] by blast
qed

theorem writeByteString_length_limit_witness:
  "writeByteString (replicate 256 0x61) (new_BinaryWriter 4) =
     Inl (ERR_OUT_OF_RANGE, ensureCapacity 1 (new_BinaryWriter 4)) \<and>
   written (writeByteString (replicate 256 0x61) (new_BinaryWriter 4)) = None \<and>
   written (writeByteString (js ''test'') (new_BinaryWriter 4)) = Some [4, 0x74, 0x65, 0x73, 0x74]"
proof -
  have big: "255 < length (utf8 (replicate 256 0x61))"
    by (subst utf8_ascii) simp_all
  have small: "utf8 (js ''test'') = [0x74, 0x65, 0x73, 0x74]"
    by (simp add: js_def)
  from writeByteString_length_limit [OF wf_new, of "replicate 256 0x61" 4] big
    writeByteString_length_limit [OF wf_new, of "js ''test''" 4] small
  show ?thesis
    by (auto simp add: written_def toBuffer_new)
qed

text \<open>
  C5. Growing the buffer keeps the written content and the cursor: ensureCapacity leaves
  the cursor where it was, the old buffer is a prefix of the new one, and the capacity
  becomes \<open>max (cursor + required) (2 * capacity)\<close> exactly when \<open>cursor + required\<close>
  exceeds it. Any sequence of byte values written one by one into a writer of any initial
  capacity is returned unchanged by toBuffer; with capacity 5 and the bytes 1..7 the
  result is the seven bytes 1..7.
\<close>

theorem growth_preserves_content:
  "position (ensureCapacity n w) = position w \<and>
   length (buffer (ensureCapacity n w)) =
     (if position w + n > length (buffer w)
      then max (position w + n) (2 * length (buffer w)) else length (buffer w)) \<and>
   take (length (buffer w)) (buffer (ensureCapacity n w)) = buffer w \<and>
   (wf w \<longrightarrow> wf (ensureCapacity n w) \<and> toBuffer (ensureCapacity n w) = toBuffer w) \<and>
   ((\<forall>v \<in> set vs. 0 \<le> v \<and> v \<le> 255) \<longrightarrow>
      written (block (map writeByte vs) (new_BinaryWriter c)) = Some (map word_of_int vs)) \<and>
   written (block (map writeByte [1, 2, 3, 4, 5, 6, 7]) (new_BinaryWriter 5)) =
     Some [1, 2, 3, 4, 5, 6, 7]"
proof -
  have seq: "written (block (map writeByte xs) (new_BinaryWriter k)) = Some (map word_of_int xs)"
    if "\<forall>v \<in> set xs. 0 \<le> v \<and> v \<le> 255" for xs k
  proof -
    have "outcome (block (map writeByte xs)) (cat (map u8 xs))"
      by (rule outcome_block) (simp add: list_all2_conv_all_nth outcome_writeByte)
    then show ?thesis
      using that by (simp add: cat_map_u8 written_outcome)
  qed
  have "written (block (map writeByte [1, 2, 3, 4, 5, 6, 7]) (new_BinaryWriter 5)) =
     Some (map word_of_int [1, 2, 3, 4, 5, 6, 7])"
    by (rule seq) simp
  then show ?thesis
    using seq [of vs c]
    by (simp add: ensureCapacity_length ensureCapacity_grow ensureCapacity_wf
        ensureCapacity_toBuffer mult.commute)
qed

theorem growth_preserves_content_witness:
  "block (map writeByte [1, 2, 3, 4, 5, 6, 7]) (new_BinaryWriter 5) =
     Inr \<lparr>buffer = [1, 2, 3, 4, 5, 6, 7, 0, 0, 0], position = 7\<rparr> \<and>
   ensureCapacity 1 \<lparr>buffer = [1, 2, 3, 4, 5], position = 5\<rparr> =
     \<lparr>buffer = [1, 2, 3, 4, 5, 0, 0, 0, 0, 0], position = 5\<rparr> \<and>
   toBuffer (ensureCapacity 1 \<lparr>buffer = [1, 2, 3, 4, 5], position = 5\<rparr>) = [1, 2, 3, 4, 5] \<and>
   written (block (map writeByte [1, 2, 3, 4, 5, 6, 7]) (new_BinaryWriter 5)) =
     Some [1, 2, 3, 4, 5, 6, 7]"
proof -
  have run: "block (map writeByte [1, 2, 3, 4, 5, 6, 7]) (new_BinaryWriter 5) =
     Inr \<lparr>buffer = [1, 2, 3, 4, 5, 6, 7, 0, 0, 0], position = 7\<rparr>"
    by code_simp
  have grow: "ensureCapacity 1 \<lparr>buffer = [1, 2, 3, 4, 5], position = 5\<rparr> =
     \<lparr>buffer = [1, 2, 3, 4, 5, 0, 0, 0, 0, 0], position = 5\<rparr>"
    by code_simp
  have inv: "wf \<lparr>buffer = [1, 2, 3, 4, 5], position = 5\<rparr>"
    by (simp add: wf_def)
  from growth_preserves_content [of 1 "\<lparr>buffer = [1, 2, 3, 4, 5], position = 5\<rparr>" "[1, 2, 3, 4, 5, 6, 7]" 5]
  show ?thesis
    using run grow inv by (simp add: toBuffer_def)
qed

text \<open>
  C6. writeFixedString(text, n) appends exactly \<open>n\<close> bytes: the first \<open>n\<close> bytes of the
  UTF-8 encoding of the text (a cut between bytes, wherever it falls), followed by zero
  bytes when the encoding is shorter than \<open>n\<close>.
\<close>

theorem writeFixedString_exact:
  assumes "wf w"
  shows "\<exists>w'. writeFixedString s n w = Inr w' \<and> wf w' \<and>
     toBuffer w' = toBuffer w @ take n (utf8 s) @ replicate (n - length (utf8 s)) 0 \<and>
     length (toBuffer w') = length (toBuffer w) + n"
proof -
  obtain w' where w': "writeFixedString s n w = Inr w'" "wf w'"
    "toBuffer w' = toBuffer w @ take n (utf8 s) @ replicate (n - length (utf8 s)) 0"
    using writeFixedString_ok [OF assms] by blast
  have "length (toBuffer w') = length (toBuffer w) + n"
    by (simp add: w'(3) min_def)
  with w' show ?thesis by blast
qed

theorem writeFixedString_exact_witness:
  "written (writeFixedString (js ''hi'') 10 (new_BinaryWriter 4)) =
     Some [0x68, 0x69, 0, 0, 0, 0, 0, 0, 0, 0] \<and>
   written (writeFixedString (js ''hello world'') 5 (new_BinaryWriter 4)) =
     Some [0x68, 0x65, 0x6C, 0x6C, 0x6F] \<and>
   take 5 (utf8 (js ''hello world'')) = [0x68, 0x65, 0x6C, 0x6C, 0x6F] \<and>
   written (writeFixedString [0xE9] 1 (new_BinaryWriter 4)) = Some [0xC3]"
proof -
  have hi: "utf8 (js ''hi'') = [0x68, 0x69]"
    by (simp add: js_def)
  have hello: "take 5 (utf8 (js ''hello world'')) = [0x68, 0x65, 0x6C, 0x6C, 0x6F]"
    by (simp add: js_def)
  have e: "utf8 [0xE9] = [0xC3, 0xA9]"
    by simp
  from writeFixedString_exact [OF wf_new, of "js ''hi''" 10 4]
    writeFixedString_exact [OF wf_new, of "js ''hello world''" 5 4]
    writeFixedString_exact [OF wf_new, of "[0xE9]" 1 4]
  show ?thesis
    unfolding hi hello e by (auto simp add: written_def toBuffer_new numeral_eq_Suc)
qed

text \<open>
  C3. In every song built from createSong by attaching tracks with addTrackToSong and
  setting scalar fields (setTempo, the key), measureCount is the largest number of
  measures of any of its tracks, and 0 when it has no track; addTrackToSong recomputes
  it as the maximum of the old value and the new track's number of measures.
\<close>

theorem measureCount_is_max:
  assumes "reachable song"
  shows "measureCount song = spec_max_measures (tracks song) \<and>
         (tracks song = [] \<longrightarrow> measureCount song = 0) \<and>
         measureCount (addTrackToSong song track) =
           max (measureCount song) (int (length (measures track))) \<and>
         measureCount (addTrackToSong song track) = spec_max_measures (tracks song @ [track])"
proof -
  have inv: "measureCount song = spec_max_measures (tracks song)"
    using assms
  proof (induction rule: reachable.induct)
    case (created t a)
    show ?case by (simp add: createSong_def max_measures_Nil)
  next
    case (attached song track)
    then show ?case by (simp add: addTrackToSong_def max_measures_snoc)
  next
    case (tempo_set song t)
    then show ?case by (simp add: setTempo_def)
  next
    case (key_set song k)
    then show ?case by simp
  qed
  then show ?thesis
    by (simp add: addTrackToSong_def max_measures_snoc max_measures_Nil)
qed

theorem measureCount_is_max_witness:
  "measureCount
     (addTrackToSong
        (addTrackToSong (setTempo (createSong (js ''Test'') None) 90)
           (addMeasureToTrack (addMeasureToTrack (createTrack (js ''Guitar'') None) createMeasure)
              createMeasure))
        (addMeasureToTrack (createTrack (js ''Bass'') (Some 4)) createMeasure)) = 2 \<and>
   measureCount (createSong (js ''Test'') None) = 0"
proof -
  let ?g = "addMeasureToTrack (addMeasureToTrack (createTrack (js ''Guitar'') None) createMeasure)
              createMeasure"
  let ?b = "addMeasureToTrack (createTrack (js ''Bass'') (Some 4)) createMeasure"
  let ?s = "addTrackToSong (setTempo (createSong (js ''Test'') None) 90) ?g"
  have "reachable ?s"
    by (intro reachable.intros)
  from measureCount_is_max [OF this, of ?b]
    measureCount_is_max [OF reachable.created, of "js ''Test''" None ?b]
  show ?thesis
    by (simp add: addTrackToSong_def setTempo_def createSong_def addMeasureToTrack_def
        createTrack_def)
qed

text \<open>
  C8. addNoteToBeat returns the beat with the note appended to its notes and the rest
  flag false, every other field unchanged. Assigning the rest flag of a beat leaves its
  notes as they are, so a beat can hold notes and be marked as a rest.
\<close>

theorem addNoteToBeat_frame:
  "notes (addNoteToBeat beat note) = notes beat @ [note] \<and>
   rest (addNoteToBeat beat note) = False \<and>
   duration (addNoteToBeat beat note) = duration beat \<and>
   dotted (addNoteToBeat beat note) = dotted beat \<and>
   tuplet (addNoteToBeat beat note) = tuplet beat \<and>
   text (addNoteToBeat beat note) = text beat \<and>
   notes (beat\<lparr>rest := v\<rparr>) = notes beat \<and>
   rest (beat\<lparr>rest := v\<rparr>) = v \<and>
   notes ((addNoteToBeat beat note)\<lparr>rest := True\<rparr>) = notes beat @ [note]"
  by (simp add: addNoteToBeat_def)

theorem addNoteToBeat_frame_witness:
  "addNoteToBeat ((createBeat None)\<lparr>rest := True\<rparr>)
      \<lparr>fret = 5, string = 1, velocity = 95, ghost = None, accentuated = None,
       heavyAccentuated = None, palmMute = None, vibrato = None, harmonic = None,
       trill = None, slide = None\<rparr> =
    \<lparr>notes = [\<lparr>fret = 5, string = 1, velocity = 95, ghost = None, accentuated = None,
       heavyAccentuated = None, palmMute = None, vibrato = None, harmonic = None,
       trill = None, slide = None\<rparr>],
     duration = 4, dotted = False, tuplet = 1, rest = False, text = None\<rparr>"
  using addNoteToBeat_frame [of "(createBeat None)\<lparr>rest := True\<rparr>"
     "\<lparr>fret = 5, string = 1, velocity = 95, ghost = None, accentuated = None,
       heavyAccentuated = None, palmMute = None, vibrato = None, harmonic = None,
       trill = None, slide = None\<rparr>" True]
  by (simp add: createBeat_def QUARTER_def addNoteToBeat_def)

text \<open>
  C9, as stated, fails for more than six strings: createTrack with stringCount 7 returns
  a tuning of six notes, not seven.
\<close>

theorem createTrack_tuning_counterexample:
  "int (length (strings (tuning (createTrack (js ''Guitar'') (Some 7))))) \<noteq> 7"
  by (simp add: createTrack_def slice_def standardTuning_def)

text \<open>
  C9, amended. For every name and every stringCount from 0 to 6, the tuning of the track
  createTrack returns has exactly stringCount MIDI note numbers, the first stringCount
  elements of [64,59,55,50,45,40] (all six when stringCount is 6, which is also the
  default when stringCount is left out).
\<close>

theorem createTrack_tuning:
  "(0 \<le> k \<and> k \<le> 6 \<longrightarrow>
      strings (tuning (createTrack nm (Some k))) = take (nat k) standardTuning \<and>
      int (length (strings (tuning (createTrack nm (Some k))))) = k) \<and>
   strings (tuning (createTrack nm (Some 6))) = standardTuning \<and>
   strings (tuning (createTrack nm None)) = standardTuning \<and>
   standardTuning = [64, 59, 55, 50, 45, 40]"
  by (auto simp add: createTrack_def slice_def standardTuning_def Let_def min_def)

theorem createTrack_tuning_witness:
  "strings (tuning (createTrack (js ''Bass'') (Some 4))) = [64, 59, 55, 50] \<and>
   strings (tuning (createTrack (js ''Guitar'') (Some 6))) = [64, 59, 55, 50, 45, 40] \<and>
   strings (tuning (createTrack (js ''Empty'') (Some 0))) = []"
proof -
  have t4: "take (nat 4) standardTuning = [64, 59, 55, 50]"
    by code_simp
  have t0: "take (nat 0) standardTuning = []"
    by simp
  have "strings (tuning (createTrack (js ''Bass'') (Some 4))) = take (nat 4) standardTuning"
    using createTrack_tuning [of 4 "js ''Bass''"] by simp
  moreover have "strings (tuning (createTrack (js ''Guitar'') (Some 6))) = [64, 59, 55, 50, 45, 40]"
    using createTrack_tuning [of 6 "js ''Guitar''"] by metis
  moreover have "strings (tuning (createTrack (js ''Empty'') (Some 0))) = take (nat 0) standardTuning"
    using createTrack_tuning [of 0 "js ''Empty''"] by simp
  ultimately show ?thesis
    by (simp only: t4 t0 simp_thms)
qed

text \<open>
  C4. The six values of Duration are 1, 2, 4, 8, 16 and 32, and durationToValue maps
  each of them to itself; every other number is mapped to 4, the quarter note. Writing
  the duration byte never throws, and the second byte of every beat record the writer
  emits is that value.
\<close>

theorem duration_byte:
  "WHOLE = 1 \<and> HALF = 2 \<and> QUARTER = 4 \<and> EIGHTH = 8 \<and> SIXTEENTH = 16 \<and> THIRTY_SECOND = 32 \<and>
   (d \<in> {WHOLE, HALF, QUARTER, EIGHTH, SIXTEENTH, THIRTY_SECOND} \<longrightarrow> durationToValue d = d) \<and>
   (d \<notin> {WHOLE, HALF, QUARTER, EIGHTH, SIXTEENTH, THIRTY_SECOND} \<longrightarrow> durationToValue d = 4) \<and>
   outcome (writeByte (durationToValue d)) (Some [word_of_int (durationToValue d)]) \<and>
   (wf w \<and> writeBeat bt w = Inr w' \<longrightarrow>
      toBuffer w' ! (position w + 1) = word_of_int (durationToValue (duration bt)) \<and>
      uint (toBuffer w' ! (position w + 1)) = durationToValue (duration bt))"
proof -
  have enum: "WHOLE = 1 \<and> HALF = 2 \<and> QUARTER = 4 \<and> EIGHTH = 8 \<and> SIXTEENTH = 16 \<and> THIRTY_SECOND = 32"
    by (simp add: WHOLE_def HALF_def QUARTER_def EIGHTH_def SIXTEENTH_def THIRTY_SECOND_def)
  have known: "d \<in> {WHOLE, HALF, QUARTER, EIGHTH, SIXTEENTH, THIRTY_SECOND} \<longrightarrow> durationToValue d = d"
    by (auto simp add: durationToValue_def enum)
  have other: "d \<notin> {WHOLE, HALF, QUARTER, EIGHTH, SIXTEENTH, THIRTY_SECOND} \<longrightarrow> durationToValue d = 4"
    by (simp add: durationToValue_def)
  have never: "outcome (writeByte (durationToValue d)) (Some [word_of_int (durationToValue d)])"
    using outcome_writeByte [of "durationToValue d"] by (simp add: durationToValue_u8)
  have byte: "toBuffer w' ! (position w + 1) = word_of_int (durationToValue (duration bt)) \<and>
      uint (toBuffer w' ! (position w + 1)) = durationToValue (duration bt)"
    if inv: "wf w" and run: "writeBeat bt w = Inr w'"
  proof -
    obtain bs where bs: "spec_beat_record bt = Some bs" "toBuffer w' = toBuffer w @ bs"
      using outcome_InrD [OF outcome_writeBeat inv run] by blast
    obtain more where "bs = spec_beat_flags bt # word_of_int (durationToValue (duration bt)) # more"
      using beat_record_prefix [OF bs(1)] by blast
    then have "toBuffer w' ! (position w + 1) = word_of_int (durationToValue (duration bt))"
      using length_toBuffer [OF inv] by (simp add: bs(2) nth_append)
    moreover have "uint (word_of_int (durationToValue (duration bt)) :: byte) =
        durationToValue (duration bt)"
      by (simp add: durationToValue_def uint_word_of_int)
    ultimately show ?thesis by simp
  qed
  from enum known other never byte show ?thesis by blast
qed

theorem duration_byte_witness:
  "durationToValue 8 = 8 \<and> durationToValue 3 = 4 \<and> durationToValue 64 = 4 \<and>
   written (writeBeat ((createBeat (Some 3))\<lparr>rest := True\<rparr>) (new_BinaryWriter 16)) =
     Some [2, 4, 1, 0, 0, 0, 0, 0, 0, 0] \<and>
   written (writeBeat (createBeat (Some THIRTY_SECOND)) (new_BinaryWriter 16)) =
     Some [0, 32, 1, 0, 0, 0, 0, 0, 0, 0]"
proof -
  have a: "writeBeat ((createBeat (Some 3))\<lparr>rest := True\<rparr>) (new_BinaryWriter 16) =
     Inr \<lparr>buffer = [2, 4, 1, 0, 0, 0, 0, 0, 0, 0, 0, 0, 0, 0, 0, 0], position = 10\<rparr>"
    by code_simp
  have c: "writeBeat (createBeat (Some THIRTY_SECOND)) (new_BinaryWriter 16) =
     Inr \<lparr>buffer = [0, 32, 1, 0, 0, 0, 0, 0, 0, 0, 0, 0, 0, 0, 0, 0], position = 10\<rparr>"
    by code_simp
  from duration_byte [of 8 "new_BinaryWriter 16" "(createBeat (Some 3))\<lparr>rest := True\<rparr>"
      "\<lparr>buffer = [2, 4, 1, 0, 0, 0, 0, 0, 0, 0, 0, 0, 0, 0, 0, 0], position = 10\<rparr>"]
    duration_byte [of 3] duration_byte [of 64]
  show ?thesis
    unfolding a c by (simp add: written_def toBuffer_def)
qed

text \<open>
  C7, as stated, fails for a field that is present and falsy: a measure whose marker is
  the empty string, whose repeat-close count is 0 or whose tempo is 0 has the field, yet
  the writer emits the flags byte 0 and no payload, the five bytes of an empty measure.
\<close>

theorem measure_record_layout_counterexample:
  "marker (createMeasure\<lparr>marker := Some []\<rparr>) \<noteq> None \<and>
   written (writeMeasure (createMeasure\<lparr>marker := Some []\<rparr>) (new_BinaryWriter 8)) =
     Some [0, 0, 0, 0, 0] \<and>
   repeatClose (createMeasure\<lparr>repeatClose := Some 0\<rparr>) \<noteq> None \<and>
   written (writeMeasure (createMeasure\<lparr>repeatClose := Some 0\<rparr>) (new_BinaryWriter 8)) =
     Some [0, 0, 0, 0, 0] \<and>
   Measure.tempo (createMeasure\<lparr>Measure.tempo := Some 0\<rparr>) \<noteq> None \<and>
   written (writeMeasure (createMeasure\<lparr>Measure.tempo := Some 0\<rparr>) (new_BinaryWriter 8)) =
     Some [0, 0, 0, 0, 0]"
proof -
  have "written (writeMeasure (createMeasure\<lparr>marker := Some []\<rparr>) (new_BinaryWriter 8)) =
     Some [0, 0, 0, 0, 0]"
    by code_simp
  moreover have "written (writeMeasure (createMeasure\<lparr>repeatClose := Some 0\<rparr>) (new_BinaryWriter 8)) =
     Some [0, 0, 0, 0, 0]"
    by code_simp
  moreover have "written (writeMeasure (createMeasure\<lparr>Measure.tempo := Some 0\<rparr>) (new_BinaryWriter 8)) =
     Some [0, 0, 0, 0, 0]"
    by code_simp
  ultimately show ?thesis by simp
qed

text \<open>
  C7, amended. For every measure whose values fit their fields, the emitted record is the
  flags byte, then the payloads of the fields whose bit is set, in the order time signature
  (2 bytes), key signature (1 signed byte, 1 boolean byte), marker (length-prefixed
  string), repeat-close count (1 byte), tempo (4 bytes), then the 4-byte beat count and the
  beat records; a measure with a value that does not fit makes the writer throw. Bit 0x01
  is set iff a time signature is present, 0x02 iff a key signature is present, 0x04 iff
  the marker is a non-empty string, 0x08 iff repeat-open is true, 0x10 iff the repeat-close
  count is a number other than 0, 0x20 iff the tempo is a number other than 0; bits 0x40
  and 0x80 are clear. Repeat-open changes nothing but its bit of the flags byte.
\<close>

theorem measure_record_layout:
  assumes "wf w"
  shows "(case spec_measure_record m of
            Some bs \<Rightarrow> (\<exists>w'. writeMeasure m w = Inr w' \<and> toBuffer w' = toBuffer w @ bs)
          | None \<Rightarrow> (\<exists>e. writeMeasure m w = Inl e)) \<and>
         (\<forall>bs. spec_measure_record m = Some bs \<longrightarrow> hd bs = spec_measure_flags m) \<and>
         (bit (spec_measure_flags m) 0 \<longleftrightarrow> timeSignature m \<noteq> None) \<and>
         (bit (spec_measure_flags m) 1 \<longleftrightarrow> keySignature m \<noteq> None) \<and>
         (bit (spec_measure_flags m) 2 \<longleftrightarrow> (\<exists>s. marker m = Some s \<and> s \<noteq> [])) \<and>
         (bit (spec_measure_flags m) 3 \<longleftrightarrow> repeatOpen m = Some True) \<and>
         (bit (spec_measure_flags m) 4 \<longleftrightarrow> (\<exists>n. repeatClose m = Some n \<and> n \<noteq> 0)) \<and>
         (bit (spec_measure_flags m) 5 \<longleftrightarrow> (\<exists>t. Measure.tempo m = Some t \<and> t \<noteq> 0)) \<and>
         \<not> bit (spec_measure_flags m) 6 \<and> \<not> bit (spec_measure_flags m) 7 \<and>
         map_option tl (spec_measure_record (m\<lparr>repeatOpen := v\<rparr>)) = map_option tl (spec_measure_record m)"
proof -
  have run: "case spec_measure_record m of
            Some bs \<Rightarrow> (\<exists>w'. writeMeasure m w = Inr w' \<and> toBuffer w' = toBuffer w @ bs)
          | None \<Rightarrow> (\<exists>e. writeMeasure m w = Inl e)"
    using outcome_writeMeasure assms by (rule outcome_cases)
  have first: "\<forall>bs. spec_measure_record m = Some bs \<longrightarrow> hd bs = spec_measure_flags m"
    using measure_record_prefix by fastforce
  have bits: "(bit (spec_measure_flags m) 0 \<longleftrightarrow> timeSignature m \<noteq> None) \<and>
         (bit (spec_measure_flags m) 1 \<longleftrightarrow> keySignature m \<noteq> None) \<and>
         (bit (spec_measure_flags m) 2 \<longleftrightarrow> (\<exists>s. marker m = Some s \<and> s \<noteq> [])) \<and>
         (bit (spec_measure_flags m) 3 \<longleftrightarrow> repeatOpen m = Some True) \<and>
         (bit (spec_measure_flags m) 4 \<longleftrightarrow> (\<exists>n. repeatClose m = Some n \<and> n \<noteq> 0)) \<and>
         (bit (spec_measure_flags m) 5 \<longleftrightarrow> (\<exists>t. Measure.tempo m = Some t \<and> t \<noteq> 0)) \<and>
         \<not> bit (spec_measure_flags m) 6 \<and> \<not> bit (spec_measure_flags m) 7"
    by (simp add: measure_flags_bit truthy_string_def truthy_boolean_def truthy_number_def
        split: option.splits)
  have payload: "map_option tl (spec_measure_record (m\<lparr>repeatOpen := v\<rparr>)) = map_option tl (spec_measure_record m)"
    unfolding spec_measure_record_def cat_flags_tl by simp
  from run first bits payload show ?thesis by blast
qed

theorem measure_record_layout_witness:
  "written (writeMeasure
      \<lparr>beats = [createBeat None],
       timeSignature = Some \<lparr>numerator = 3, denominator = 4\<rparr>,
       keySignature = Some \<lparr>value = - 2, minor = True\<rparr>,
       tempo = Some 90, marker = Some (js ''A''), repeatOpen = Some True,
       repeatClose = Some 2\<rparr> (new_BinaryWriter 8)) =
    Some [0x3F, 3, 4, 0xFE, 1, 1, 0, 0, 0, 0x41, 2, 90, 0, 0, 0, 1, 0, 0, 0,
          0, 4, 1, 0, 0, 0, 0, 0, 0, 0] \<and>
   written (writeMeasure (createMeasure\<lparr>timeSignature := Some \<lparr>numerator = 256, denominator = 4\<rparr>\<rparr>)
      (new_BinaryWriter 8)) = None"
proof -
  let ?m = "\<lparr>beats = [createBeat None],
       timeSignature = Some \<lparr>numerator = 3, denominator = 4\<rparr>,
       keySignature = Some \<lparr>value = - 2, minor = True\<rparr>,
       tempo = Some 90, marker = Some (js ''A''), repeatOpen = Some True,
       repeatClose = Some 2\<rparr>"
  let ?bad = "createMeasure\<lparr>timeSignature := Some \<lparr>numerator = 256, denominator = 4\<rparr>\<rparr>"
  have rec: "spec_measure_record ?m =
     Some [0x3F, 3, 4, 0xFE, 1, 1, 0, 0, 0, 0x41, 2, 90, 0, 0, 0, 1, 0, 0, 0,
          0, 4, 1, 0, 0, 0, 0, 0, 0, 0]"
    by code_simp
  have bad: "spec_measure_record ?bad = None"
    by code_simp
  from measure_record_layout [OF wf_new, of ?m 8, THEN conjunct1]
    measure_record_layout [OF wf_new, of ?bad 8, THEN conjunct1]
  show ?thesis
    unfolding rec bad by (auto simp add: written_def toBuffer_new)
qed

text \<open>
  C10. A measure whose tempo is 0, whose repeat-close count is 0 or whose marker is the
  empty string is written exactly as the same measure without that field, and a beat
  whose text is the empty string exactly as the beat without text: the writer behaves
  identically from every writer state, and in the record it emits the bit of the field
  (0x20, 0x10, 0x04 of the measure flags, 0x04 of the beat flags) is clear.
\<close>

theorem falsy_fields_absent:
  "writeMeasure (m\<lparr>Measure.tempo := Some 0\<rparr>) = writeMeasure (m\<lparr>Measure.tempo := None\<rparr>) \<and>
   writeMeasure (m\<lparr>repeatClose := Some 0\<rparr>) = writeMeasure (m\<lparr>repeatClose := None\<rparr>) \<and>
   writeMeasure (m\<lparr>marker := Some []\<rparr>) = writeMeasure (m\<lparr>marker := None\<rparr>) \<and>
   writeBeat (bt\<lparr>text := Some []\<rparr>) = writeBeat (bt\<lparr>text := None\<rparr>) \<and>
   (wf w \<and> writeMeasure (m\<lparr>Measure.tempo := Some 0\<rparr>) w = Inr w' \<longrightarrow>
      \<not> bit (toBuffer w' ! position w) 5) \<and>
   (wf w \<and> writeMeasure (m\<lparr>repeatClose := Some 0\<rparr>) w = Inr w' \<longrightarrow>
      \<not> bit (toBuffer w' ! position w) 4) \<and>
   (wf w \<and> writeMeasure (m\<lparr>marker := Some []\<rparr>) w = Inr w' \<longrightarrow>
      \<not> bit (toBuffer w' ! position w) 2) \<and>
   (wf w \<and> writeBeat (bt\<lparr>text := Some []\<rparr>) w = Inr w' \<longrightarrow>
      \<not> bit (toBuffer w' ! position w) 2)"
proof -
  have same: "writeMeasure (m\<lparr>Measure.tempo := Some 0\<rparr>) = writeMeasure (m\<lparr>Measure.tempo := None\<rparr>)"
    "writeMeasure (m\<lparr>repeatClose := Some 0\<rparr>) = writeMeasure (m\<lparr>repeatClose := None\<rparr>)"
    "writeMeasure (m\<lparr>marker := Some []\<rparr>) = writeMeasure (m\<lparr>marker := None\<rparr>)"
    by (simp_all add: writeMeasure_def truthy_number_def truthy_string_def)
  have same_beat: "writeBeat (bt\<lparr>text := Some []\<rparr>) = writeBeat (bt\<lparr>text := None\<rparr>)"
    by (simp add: writeBeat_def truthy_string_def)
  have clear: "\<not> bit (spec_measure_flags (m\<lparr>Measure.tempo := Some 0\<rparr>)) 5"
    "\<not> bit (spec_measure_flags (m\<lparr>repeatClose := Some 0\<rparr>)) 4"
    "\<not> bit (spec_measure_flags (m\<lparr>marker := Some []\<rparr>)) 2"
    "\<not> bit (spec_beat_flags (bt\<lparr>text := Some []\<rparr>)) 2"
    by (simp_all add: measure_flags_bit beat_flags_bit truthy_number_def truthy_string_def)
  show ?thesis
    using same same_beat clear written_flags_measure [of w _ w'] written_flags_beat [of w _ w']
    by metis
qed

theorem falsy_fields_absent_witness:
  "written (writeMeasure (createMeasure\<lparr>Measure.tempo := Some 0, repeatClose := Some 0,
       marker := Some []\<rparr>) (new_BinaryWriter 8)) =
     written (writeMeasure createMeasure (new_BinaryWriter 8)) \<and>
   written (writeMeasure createMeasure (new_BinaryWriter 8)) = Some [0, 0, 0, 0, 0] \<and>
   written (writeBeat ((createBeat None)\<lparr>text := Some []\<rparr>) (new_BinaryWriter 8)) =
     Some [0, 4, 1, 0, 0, 0, 0, 0, 0, 0]"
proof -
  have e: "createMeasure\<lparr>Measure.tempo := None\<rparr> = createMeasure"
    "createMeasure\<lparr>repeatClose := None\<rparr> = createMeasure"
    "createMeasure\<lparr>marker := None\<rparr> = createMeasure"
    "(createBeat None)\<lparr>text := None\<rparr> = createBeat None"
    by (simp_all add: createMeasure_def createBeat_def)
  have "writeMeasure (createMeasure\<lparr>Measure.tempo := Some 0, repeatClose := Some 0,
       marker := Some []\<rparr>) = writeMeasure (createMeasure\<lparr>Measure.tempo := Some 0, repeatClose := Some 0,
       marker := None\<rparr>)"
    using falsy_fields_absent [of "createMeasure\<lparr>Measure.tempo := Some 0, repeatClose := Some 0\<rparr>"]
    by simp
  also have "\<dots> = writeMeasure (createMeasure\<lparr>Measure.tempo := Some 0\<rparr>)"
    using falsy_fields_absent [of "createMeasure\<lparr>Measure.tempo := Some 0, marker := None\<rparr>"]
    by (simp add: createMeasure_def)
  also have "\<dots> = writeMeasure createMeasure"
    using falsy_fields_absent [of createMeasure] by (simp add: e)
  finally have a: "writeMeasure (createMeasure\<lparr>Measure.tempo := Some 0, repeatClose := Some 0,
       marker := Some []\<rparr>) = writeMeasure createMeasure" .
  have c: "writeBeat ((createBeat None)\<lparr>text := Some []\<rparr>) = writeBeat (createBeat None)"
    using falsy_fields_absent [of _ "createBeat None"] by (simp add: e)
  have "written (writeMeasure createMeasure (new_BinaryWriter 8)) = Some [0, 0, 0, 0, 0]"
    by code_simp
  moreover have "written (writeBeat (createBeat None) (new_BinaryWriter 8)) =
     Some [0, 4, 1, 0, 0, 0, 0, 0, 0, 0]"
    by code_simp
  ultimately show ?thesis
    by (simp add: a c)
qed

text \<open>
  C2. The file the writer returns is the header, the song's metadata, the track table
  and the measure table, in that order, and writeMeasures emits that measure table: the
  4-byte measure count followed, track by
  track, by exactly measureCount measure records per track, whatever the number of
  measures the track has: the track's own measures in order (the first measureCount of
  them), then the record of an empty measure (flags byte 0, beat count 0: five zero
  bytes) for each missing one. The writer throws instead when some value does not fit
  its field. For two tracks of 2 and 4 measures attached to a new song, measureCount is
  4 and each track contributes 4 records, the first one its 2 measures and 2 empty ones.
\<close>

theorem track_padding:
  assumes "wf w"
  shows "(case spec_file song of
            Some bs \<Rightarrow> write_song song = Inr bs
          | None \<Rightarrow> (\<exists>e. write_song song = Inl e)) \<and>
         (case spec_measure_table song of
            Some bs \<Rightarrow> (\<exists>w'. writeMeasures song w = Inr w' \<and> toBuffer w' = toBuffer w @ bs)
          | None \<Rightarrow> (\<exists>e. writeMeasures song w = Inl e)) \<and>
         (case cat (map spec_measure_record (spec_padded_measures track count)) of
            Some bs \<Rightarrow> (\<exists>w'. writeTrackMeasures track count w = Inr w' \<and>
                           toBuffer w' = toBuffer w @ bs)
          | None \<Rightarrow> (\<exists>e. writeTrackMeasures track count w = Inl e)) \<and>
         length (spec_padded_measures track count) = nat count \<and>
         (int (length (measures track)) \<le> count \<longrightarrow>
            spec_padded_measures track count =
              measures track @ replicate (nat count - length (measures track)) createMeasure) \<and>
         spec_measure_record createMeasure = Some [0, 0, 0, 0, 0] \<and>
         (length (measures t1) = 2 \<and> length (measures t2) = 4 \<longrightarrow>
            measureCount (addTrackToSong (addTrackToSong (createSong ttl a) t1) t2) = 4 \<and>
            spec_padded_measures t1 4 = measures t1 @ [createMeasure, createMeasure] \<and>
            spec_padded_measures t2 4 = measures t2)"
proof -
  have whole: "case spec_file song of
            Some bs \<Rightarrow> write_song song = Inr bs
          | None \<Rightarrow> (\<exists>e. write_song song = Inl e)"
    by (rule write_song_layout)
  have table: "case spec_measure_table song of
            Some bs \<Rightarrow> (\<exists>w'. writeMeasures song w = Inr w' \<and> toBuffer w' = toBuffer w @ bs)
          | None \<Rightarrow> (\<exists>e. writeMeasures song w = Inl e)"
    using outcome_writeMeasures assms by (rule outcome_cases)
  have one: "case cat (map spec_measure_record (spec_padded_measures track count)) of
            Some bs \<Rightarrow> (\<exists>w'. writeTrackMeasures track count w = Inr w' \<and>
                           toBuffer w' = toBuffer w @ bs)
          | None \<Rightarrow> (\<exists>e. writeTrackMeasures track count w = Inl e)"
    using outcome_writeTrackMeasures assms by (rule outcome_cases)
  have pad: "int (length (measures track)) \<le> count \<longrightarrow>
            spec_padded_measures track count =
              measures track @ replicate (nat count - length (measures track)) createMeasure"
    by (simp add: spec_padded_measures_def)
  have two: "length (measures t1) = 2 \<and> length (measures t2) = 4 \<longrightarrow>
            measureCount (addTrackToSong (addTrackToSong (createSong ttl a) t1) t2) = 4 \<and>
            spec_padded_measures t1 4 = measures t1 @ [createMeasure, createMeasure] \<and>
            spec_padded_measures t2 4 = measures t2"
    by (simp add: addTrackToSong_def createSong_def spec_padded_measures_def numeral_eq_Suc)
  from whole table one pad two show ?thesis
    by (simp only: length_padded_measures measure_record_empty simp_thms)
qed

theorem track_padding_witness:
  "written (writeMeasures
      (addTrackToSong
         (addTrackToSong (createSong (js ''Test'') None)
            (addMeasureToTrack
               (addMeasureToTrack (createTrack (js ''Guitar'') None)
                  (setTimeSignature createMeasure 4 4))
               createMeasure))
         (addMeasureToTrack (addMeasureToTrack (addMeasureToTrack (addMeasureToTrack
            (createTrack (js ''Bass'') (Some 4)) createMeasure) createMeasure) createMeasure)
            createMeasure))
      (new_BinaryWriter 16)) =
    Some ([4, 0, 0, 0] @
          [1, 4, 4, 0, 0, 0, 0] @ [0, 0, 0, 0, 0] @ [0, 0, 0, 0, 0] @ [0, 0, 0, 0, 0] @
          [0, 0, 0, 0, 0] @ [0, 0, 0, 0, 0] @ [0, 0, 0, 0, 0] @ [0, 0, 0, 0, 0]) \<and>
   spec_padded_measures
     (addMeasureToTrack
        (addMeasureToTrack (createTrack (js ''Guitar'') None) (setTimeSignature createMeasure 4 4))
        createMeasure) 4 =
     [setTimeSignature createMeasure 4 4, createMeasure, createMeasure, createMeasure]"
proof -
  let ?g = "addMeasureToTrack
               (addMeasureToTrack (createTrack (js ''Guitar'') None)
                  (setTimeSignature createMeasure 4 4))
               createMeasure"
  let ?b = "addMeasureToTrack (addMeasureToTrack (addMeasureToTrack (addMeasureToTrack
            (createTrack (js ''Bass'') (Some 4)) createMeasure) createMeasure) createMeasure)
            createMeasure"
  let ?song = "addTrackToSong (addTrackToSong (createSong (js ''Test'') None) ?g) ?b"
  have table: "spec_measure_table ?song =
    Some ([4, 0, 0, 0] @
          [1, 4, 4, 0, 0, 0, 0] @ [0, 0, 0, 0, 0] @ [0, 0, 0, 0, 0] @ [0, 0, 0, 0, 0] @
          [0, 0, 0, 0, 0] @ [0, 0, 0, 0, 0] @ [0, 0, 0, 0, 0] @ [0, 0, 0, 0, 0])"
    by code_simp
  have len: "length (measures ?g) = 2 \<and> length (measures ?b) = 4"
    by (simp add: addMeasureToTrack_def createTrack_def)
  have own: "measures ?g = [setTimeSignature createMeasure 4 4, createMeasure]"
    by (simp add: addMeasureToTrack_def createTrack_def)
  note inst = track_padding [OF wf_new, of ?song 16 ?g 4 ?g ?b]
  have "written (writeMeasures ?song (new_BinaryWriter 16)) = spec_measure_table ?song"
    using inst [THEN conjunct2, THEN conjunct1] unfolding table
    by (auto simp add: written_def toBuffer_new)
  moreover have "spec_padded_measures ?g 4 = measures ?g @ [createMeasure, createMeasure]"
    using inst len by blast
  ultimately show ?thesis
    unfolding table own by simp
qed

end
